theory Spec2Isabelle
  imports Complex_Main "HOL-Library.Sublist"
begin

section \<open>JavaScript string and number primitives used by the client\<close>

text \<open>
  Strings are character lists and numbers are mathematical integers, with \<open>None\<close> for
  \<open>NaN\<close> (and for \<open>undefined\<close> or \<open>null\<close> where a value may be absent). The
  functions below are the built-ins the components call: \<open>toString\<close> of a number,
  \<open>padStart\<close>, \<open>parseInt\<close> without a radix, \<open>split\<close> on a one-character
  separator, \<open>toLowerCase\<close> (on ASCII letters), \<open>replace\<close> with a string pattern
  (first occurrence only) and with a global regular expression, \<open>includes\<close>,
  \<open>replace(/\D/g, '')\<close>, \<open>slice(0, n)\<close>, and \<open>||\<close> and truthiness on optional
  strings and numbers. Characters are bytes: the model follows the platform on ASCII
  text. Numbers are exact, as the platform's are below \<open>2^53\<close>, and the white space that
  \<open>parseInt\<close> skips is the ASCII white space.
\<close>

definition digit_char :: "nat \<Rightarrow> char" where
  "digit_char d = ''0123456789'' ! d"

fun nat_toString :: "nat \<Rightarrow> string" where
  "nat_toString n =
     (if n < 10 then [digit_char n] else nat_toString (n div 10) @ [digit_char (n mod 10)])"

declare nat_toString.simps [simp del]

definition padStart :: "nat \<Rightarrow> char \<Rightarrow> string \<Rightarrow> string" where
  "padStart w c s = replicate (w - length s) c @ s"

definition pad2 :: "nat \<Rightarrow> string" where
  "pad2 n = padStart 2 (CHR ''0'') (nat_toString n)"

definition is_digit :: "char \<Rightarrow> bool" where
  "is_digit c \<longleftrightarrow> c \<in> set ''0123456789''"

definition digit_val :: "char \<Rightarrow> nat" where
  "digit_val c =
     (case map_of (zip ''0123456789abcdefABCDEF''
                       [0, 1, 2, 3, 4, 5, 6, 7, 8, 9, 10, 11, 12, 13, 14, 15, 10, 11, 12, 13, 14, 15]) c of
        Some v \<Rightarrow> v | None \<Rightarrow> 0)"

definition is_hex_digit :: "char \<Rightarrow> bool" where
  "is_hex_digit c \<longleftrightarrow> c \<in> set ''0123456789abcdefABCDEF''"

definition is_space :: "char \<Rightarrow> bool" where
  "is_space c \<longleftrightarrow> c \<in> {CHR '' '', CHR 0x09, CHR 0x0A, CHR 0x0B, CHR 0x0C, CHR 0x0D}"

definition digits_value :: "nat \<Rightarrow> string \<Rightarrow> nat" where
  "digits_value radix ds = foldl (\<lambda>acc c. radix * acc + digit_val c) 0 ds"

text \<open>
  \<open>parseInt\<close> without a radix: leading white space is skipped, a sign and a \<open>0x\<close>
  prefix are honoured, and the longest prefix of digits is read; \<open>None\<close> is \<open>NaN\<close>.
\<close>

definition parseInt :: "string \<Rightarrow> int option" where
  "parseInt str =
     (let t = dropWhile is_space str;
          (sign, u) = (case t of
                         c # r \<Rightarrow> if c = CHR ''-'' then (- 1, r)
                                  else if c = CHR ''+'' then (1, r) else (1, t)
                       | [] \<Rightarrow> (1::int, t));
          (radix, v) = (if take 2 u = ''0x'' \<or> take 2 u = ''0X'' then (16, drop 2 u) else (10, u));
          ds = takeWhile (if radix = 16 then is_hex_digit else is_digit) v
      in if ds = [] then None else Some (sign * int (digits_value radix ds)))"

fun split_loop :: "char \<Rightarrow> string \<Rightarrow> string \<Rightarrow> string list" where
  "split_loop sep cur [] = [cur]"
| "split_loop sep cur (c # cs) =
     (if c = sep then cur # split_loop sep [] cs else split_loop sep (cur @ [c]) cs)"

definition js_split :: "char \<Rightarrow> string \<Rightarrow> string list" where
  "js_split sep s = split_loop sep [] s"

definition nth_opt :: "'a list \<Rightarrow> nat \<Rightarrow> 'a option" where
  "nth_opt xs i = (if i < length xs then Some (xs ! i) else None)"

definition num_toString :: "int option \<Rightarrow> string" where
  "num_toString v = (case v of None \<Rightarrow> ''NaN''
      | Some i \<Rightarrow> if i < 0 then CHR ''-'' # nat_toString (nat (- i)) else nat_toString (nat i))"


definition toLowerCase :: "string \<Rightarrow> string" where
  "toLowerCase s =
     map (\<lambda>c. case map_of (zip ''ABCDEFGHIJKLMNOPQRSTUVWXYZ'' ''abcdefghijklmnopqrstuvwxyz'') c of
                 Some l \<Rightarrow> l | None \<Rightarrow> c) s"

fun replace_first :: "char \<Rightarrow> char \<Rightarrow> string \<Rightarrow> string" where
  "replace_first a b [] = []"
| "replace_first a b (c # cs) = (if c = a then b # cs else c # replace_first a b cs)"

definition replace_all :: "char \<Rightarrow> char \<Rightarrow> string \<Rightarrow> string" where
  "replace_all a b s = map (\<lambda>c. if c = a then b else c) s"

definition str_includes :: "string \<Rightarrow> string \<Rightarrow> bool" where
  "str_includes text part \<longleftrightarrow> sublist part text"

definition strip_non_digits :: "string \<Rightarrow> string" where
  "strip_non_digits s = filter is_digit s"

definition slice0 :: "nat \<Rightarrow> string \<Rightarrow> string" where
  "slice0 n s = take n s"

definition js_or_str :: "string option \<Rightarrow> string option \<Rightarrow> string option" where
  "js_or_str a b = (case a of None \<Rightarrow> b | Some s \<Rightarrow> if s \<noteq> [] then Some s else b)"

definition truthy_str :: "string option \<Rightarrow> bool" where
  "truthy_str a = (case a of None \<Rightarrow> False | Some s \<Rightarrow> s \<noteq> [])"


text \<open>
  \<open>a || b\<close> on two optional numbers (\<open>x?.id\<close> is \<open>undefined\<close> when \<open>x\<close> is absent):
  the left operand is taken when it is truthy, and the number 0 is falsy.
\<close>

definition js_or_num :: "int option \<Rightarrow> int option \<Rightarrow> int option" where
  "js_or_num a b = (case a of None \<Rightarrow> b | Some n \<Rightarrow> if n \<noteq> 0 then Some n else b)"

section \<open>The host's Date object\<close>

text \<open>
  \<open>new Date(year, monthIndex, day, hours, minutes)\<close> and the local-time getters, after
  ECMAScript: a date is a time value in milliseconds (\<open>None\<close> for an invalid date), built
  with \<open>MakeDay\<close>, \<open>MakeTime\<close> and \<open>MakeDate\<close> from local-time fields, converted with the
  host's \<open>UTC\<close> and clipped; years 0 to 99 denote 1900 to 1999; the getters apply the host's
  \<open>LocalTime\<close> and read the field back. The host's time zone is the parameter
  \<open>host_zone\<close>. \<open>YearFromDay\<close> is the largest year whose first day is not after the day,
  found by searching downwards from an upper estimate.
\<close>

definition msPerDay :: int where "msPerDay = 86400000"
definition msPerHour :: int where "msPerHour = 3600000"
definition msPerMinute :: int where "msPerMinute = 60000"

definition DayFromYear :: "int \<Rightarrow> int" where
  "DayFromYear y = 365 * (y - 1970) + (y - 1969) div 4 - (y - 1901) div 100 + (y - 1601) div 400"

definition DaysInYear :: "int \<Rightarrow> int" where
  "DaysInYear y = (if y mod 4 \<noteq> 0 then 365 else if y mod 100 \<noteq> 0 then 366
                   else if y mod 400 \<noteq> 0 then 365 else 366)"

text \<open>Arithmetic of \<open>DayFromYear\<close>, needed for the search to terminate.\<close>

lemma int_div_succ:
  assumes k: "0 < (k::int)"
  shows "(x + 1) div k = x div k + (if k dvd x + 1 then 1 else 0)"
proof -
  define q where "q = x div k"
  define r where "r = x mod k"
  have x: "x = k * q + r" by (simp add: q_def r_def)
  have r: "0 \<le> r" "r < k" using k by (simp_all add: r_def)
  show ?thesis
  proof (cases "r = k - 1")
    case True
    then have e: "x + 1 = k * (q + 1)" using x by (simp add: algebra_simps)
    have "(x + 1) div k = q + 1" unfolding e using k by simp
    moreover have "k dvd x + 1" unfolding e by simp
    ultimately show ?thesis by (simp add: q_def)
  next
    case False
    then have r1: "0 \<le> r + 1" "r + 1 < k" using r by simp_all
    have e: "x + 1 = k * q + (r + 1)" using x by simp
    have d: "(x + 1) div k = q" unfolding e using k r1 by simp
    have "(x + 1) mod k = r + 1" unfolding e using k r1 by simp
    then have "\<not> k dvd x + 1" using r by (simp add: dvd_eq_mod_eq_0)
    with d show ?thesis by (simp add: q_def)
  qed
qed

lemma DayFromYear_succ: "DayFromYear (y + 1) = DayFromYear y + DaysInYear y"
proof -
  have a: "(y + 1 - 1969) div 4 = (y - 1969) div 4 + (if 4 dvd y then 1 else 0)"
    using int_div_succ [of 4 "y - 1969"] dvd_diff_left_iff [of 4 1968 y] by simp
  have b: "(y + 1 - 1901) div 100 = (y - 1901) div 100 + (if 100 dvd y then 1 else 0)"
    using int_div_succ [of 100 "y - 1901"] dvd_diff_left_iff [of 100 1900 y] by simp
  have c: "(y + 1 - 1601) div 400 = (y - 1601) div 400 + (if 400 dvd y then 1 else 0)"
    using int_div_succ [of 400 "y - 1601"] dvd_diff_left_iff [of 400 1600 y] by simp
  have d: "100 dvd y \<Longrightarrow> 4 dvd y" "400 dvd y \<Longrightarrow> 100 dvd y"
    by (rule dvd_trans [of 4 100 y], simp, assumption) (rule dvd_trans [of 100 400 y], simp, assumption)
  show ?thesis
    unfolding DayFromYear_def DaysInYear_def a b c
    using d by (simp add: mod_eq_0_iff_dvd)
qed

lemma DaysInYear_bounds: "365 \<le> DaysInYear y" "DaysInYear y \<le> 366"
  by (simp_all add: DaysInYear_def)

lemma DayFromYear_pred_less: "DayFromYear (y - 1) < DayFromYear y"
  using DayFromYear_succ [of "y - 1"] DaysInYear_bounds(1) [of "y - 1"] by simp

function year_search :: "int \<Rightarrow> int \<Rightarrow> int" where
  "year_search d y = (if d < DayFromYear y then year_search d (y - 1) else y)"
  by pat_completeness auto
termination
  by (relation "measure (\<lambda>(d, y). nat (DayFromYear y - d))")
     (use DayFromYear_pred_less in \<open>auto simp: nat_less_iff intro: order_less_le_trans\<close>)
declare year_search.simps [simp del]

definition YearFromDay :: "int \<Rightarrow> int" where
  "YearFromDay d = year_search d (1970 + (if 0 \<le> d then d div 365 else d div 366))"

definition month_starts :: "int \<Rightarrow> int list" where
  "month_starts leap = [0, 31, 59 + leap, 90 + leap, 120 + leap, 151 + leap, 181 + leap,
                        212 + leap, 243 + leap, 273 + leap, 304 + leap, 334 + leap]"

definition MakeDay :: "int \<Rightarrow> int \<Rightarrow> int \<Rightarrow> int" where
  "MakeDay year month date =
     (let ym = year + month div 12; mn = month mod 12
      in DayFromYear ym + month_starts (DaysInYear ym - 365) ! nat mn + date - 1)"

definition MonthFromDay :: "int \<Rightarrow> int" where
  "MonthFromDay d =
     (let y = YearFromDay d; w = d - DayFromYear y; leap = DaysInYear y - 365
      in int (length (filter (\<lambda>s. s \<le> w) (month_starts leap))) - 1)"

definition DateFromDay :: "int \<Rightarrow> int" where
  "DateFromDay d =
     (let y = YearFromDay d; w = d - DayFromYear y; leap = DaysInYear y - 365
      in w - month_starts leap ! nat (MonthFromDay d) + 1)"

definition days_in_month :: "int \<Rightarrow> int \<Rightarrow> int" where
  "days_in_month y mo =
     (if mo = 2 then DaysInYear y - 337
      else if mo = 4 \<or> mo = 6 \<or> mo = 9 \<or> mo = 11 then 30 else 31)"

record host_zone =
  utc_of_local :: "int \<Rightarrow> int"
  local_of_utc :: "int \<Rightarrow> int"

definition new_Date ::
  "host_zone \<Rightarrow> int option \<Rightarrow> int option \<Rightarrow> int option \<Rightarrow> int option \<Rightarrow> int option \<Rightarrow> int option" where
  "new_Date z year month date hours minutes =
     (case year of None \<Rightarrow> None | Some y \<Rightarrow>
      case month of None \<Rightarrow> None | Some m \<Rightarrow>
      case date of None \<Rightarrow> None | Some dt \<Rightarrow>
      case hours of None \<Rightarrow> None | Some h \<Rightarrow>
      case minutes of None \<Rightarrow> None | Some mi \<Rightarrow>
        (let yr = (if 0 \<le> y \<and> y \<le> 99 then 1900 + y else y);
             t = MakeDay yr m dt * msPerDay + (h * msPerHour + mi * msPerMinute);
             u = utc_of_local z t
         in if \<bar>u\<bar> \<le> 8640000000000000 then Some u else None))"

definition getFullYear :: "host_zone \<Rightarrow> int option \<Rightarrow> int option" where
  "getFullYear z d = map_option (\<lambda>u. YearFromDay (local_of_utc z u div msPerDay)) d"

definition getMonth :: "host_zone \<Rightarrow> int option \<Rightarrow> int option" where
  "getMonth z d = map_option (\<lambda>u. MonthFromDay (local_of_utc z u div msPerDay)) d"

definition getDate :: "host_zone \<Rightarrow> int option \<Rightarrow> int option" where
  "getDate z d = map_option (\<lambda>u. DateFromDay (local_of_utc z u div msPerDay)) d"

definition getHours :: "host_zone \<Rightarrow> int option \<Rightarrow> int option" where
  "getHours z d = map_option (\<lambda>u. local_of_utc z u div msPerHour mod 24) d"

definition getMinutes :: "host_zone \<Rightarrow> int option \<Rightarrow> int option" where
  "getMinutes z d = map_option (\<lambda>u. local_of_utc z u div msPerMinute mod 60) d"

definition fixed_offset_zone :: "int \<Rightarrow> host_zone" where
  "fixed_offset_zone off = \<lparr>utc_of_local = (\<lambda>t. t - off), local_of_utc = (\<lambda>u. u + off)\<rparr>"

text \<open>
  For the statement about the scheduled time: the local time value that \<open>new Date\<close>
  builds from the fields of a date and a slot; a host zone is exact at a local time when
  converting it to UTC stays within the range of time values and converting back gives
  the same local time (the local time exists in the zone); and a string of exactly \<open>n\<close>
  digits. \<open>gap_zone\<close> is a zone whose clocks jump from 09:00 to 10:00 on 3 November 2026:
  local times in the gap are read with the offset before the jump.
\<close>

definition local_time_value :: "int \<Rightarrow> int \<Rightarrow> int \<Rightarrow> int \<Rightarrow> int \<Rightarrow> int" where
  "local_time_value y mo d h mi =
     MakeDay y (mo - 1) d * msPerDay + (h * msPerHour + mi * msPerMinute)"

definition zone_exact :: "host_zone \<Rightarrow> int \<Rightarrow> bool" where
  "zone_exact z t \<longleftrightarrow>
     \<bar>utc_of_local z t\<bar> \<le> 8640000000000000 \<and> local_of_utc z (utc_of_local z t) = t"

definition all_digits :: "nat \<Rightarrow> string \<Rightarrow> bool" where
  "all_digits n ds \<longleftrightarrow> length ds = n \<and> (\<forall>c \<in> set ds. is_digit c)"

definition gap_zone :: host_zone where
  "gap_zone =
     \<lparr>utc_of_local = (\<lambda>t. if t < 1793700000000 then t else t - 3600000),
      local_of_utc = (\<lambda>u. if u < 1793696400000 then u else u + 3600000)\<rparr>"

section \<open>StaffPage: deriving the current customer and the remaining queue\<close>

datatype status = waiting | checked_in | in_progress | completed | no_show

record queue_entry =
  entry_id :: int
  token_number :: string
  customer_name :: "string option"
  service_type :: string
  status :: status
  predicted_duration_min :: int
  start_time :: "string option"
  assigned_counter :: "int option"

record staff_page =
  queue :: "queue_entry list"
  currentCustomer :: "queue_entry option"
  page_loading :: bool

definition is_mine :: "queue_entry \<Rightarrow> bool" where
  "is_mine q \<longleftrightarrow> status q = in_progress \<and> assigned_counter q = Some 1"

definition is_active :: "queue_entry \<Rightarrow> bool" where
  "is_active q \<longleftrightarrow> status q = waiting \<or> status q = checked_in"

text \<open>
  \<open>fetchQueue\<close> of the staff page. The response is \<open>None\<close> when \<open>getQueueStatus\<close>
  throws (the catch branch only logs) and \<open>Some queue\<close> otherwise. The counter is the
  literal 1 of the source. \<open>q.id !== excluded\<close> is true for every entry when
  \<open>excluded\<close> is \<open>undefined\<close>.
\<close>

definition fetchQueue :: "staff_page \<Rightarrow> queue_entry list option \<Rightarrow> staff_page" where
  "fetchQueue st response =
     (case response of
        None \<Rightarrow> st\<lparr>page_loading := False\<rparr>
      | Some data \<Rightarrow>
          (let myCustomer = find is_mine data;
               nextCustomer = (if myCustomer = None then find is_active data else None);
               excluded = js_or_num (map_option entry_id myCustomer)
                                    (map_option entry_id nextCustomer);
               remainingQueue =
                 filter (\<lambda>q. Some (entry_id q) \<noteq> excluded \<and> is_active q) data
           in st\<lparr>currentCustomer :=
                     (case myCustomer of Some m \<Rightarrow> Some m | None \<Rightarrow> nextCustomer),
                   queue := remainingQueue,
                   page_loading := False\<rparr>))"

text \<open>
  The reducer as the specification words it, for a counter \<open>counter\<close>: the first entry
  in progress at the counter, else the first waiting or checked-in entry; the remaining
  queue is every waiting or checked-in entry whose id differs from the current one's.
\<close>

definition deriveView_spec ::
  "queue_entry list \<Rightarrow> int \<Rightarrow> queue_entry option \<times> queue_entry list" where
  "deriveView_spec data counter =
     (let current =
            (case find (\<lambda>q. status q = in_progress \<and> assigned_counter q = Some counter) data of
               Some m \<Rightarrow> Some m
             | None \<Rightarrow> find (\<lambda>q. status q = waiting \<or> status q = checked_in) data)
      in (current,
          filter (\<lambda>q. (status q = waiting \<or> status q = checked_in) \<and>
                       (case current of None \<Rightarrow> True | Some c \<Rightarrow> entry_id q \<noteq> entry_id c))
                 data))"

text \<open>
  The snapshots on which the exclusion of \<open>fetchQueue\<close> does nothing although a current
  customer exists: the entry in progress at counter 1 has the id 0, so that
  \<open>0 || undefined\<close> is \<open>undefined\<close>, and a waiting or checked-in entry has the id 0 too.
\<close>

definition zero_id_clash :: "queue_entry list \<Rightarrow> bool" where
  "zero_id_clash data \<longleftrightarrow>
     (case find is_mine data of
        None \<Rightarrow> False
      | Some m \<Rightarrow> entry_id m = 0 \<and> (\<exists>q \<in> set data. is_active q \<and> entry_id q = 0))"

definition mk_entry :: "int \<Rightarrow> status \<Rightarrow> int option \<Rightarrow> string option \<Rightarrow> queue_entry" where
  "mk_entry i s c t =
     \<lparr>entry_id = i, token_number = ''T'', customer_name = None, service_type = ''Forex'',
      status = s, predicted_duration_min = 5, start_time = t, assigned_counter = c\<rparr>"

definition empty_page :: staff_page where
  "empty_page = \<lparr>queue = [], currentCustomer = None, page_loading = True\<rparr>"

definition other_counter_queue :: "queue_entry list" where
  "other_counter_queue = [mk_entry 1 in_progress (Some 2) None, mk_entry 2 waiting None None]"

definition shared_zero_queue :: "queue_entry list" where
  "shared_zero_queue = [mk_entry 0 in_progress (Some 1) None, mk_entry 0 waiting None None]"

section \<open>CurrentCustomer: the service-session actions\<close>

datatype staff_action = act_start | act_complete | act_no_show

record staff_request =
  queue_id :: int
  action :: staff_action
  counter_number :: int
  staff_id :: int

record session =
  customer :: "queue_entry option"
  session_loading :: bool

text \<open>\<open>!!customer.start_time\<close>: an absent or empty timestamp is falsy.\<close>

definition isStarted :: "queue_entry \<Rightarrow> bool" where
  "isStarted c = (case start_time c of None \<Rightarrow> False | Some t \<Rightarrow> t \<noteq> [])"

text \<open>
  The buttons the component renders, each with its action and its \<open>disabled\<close> flag:
  none without a customer, Start and No Show before the start, Complete after it.
\<close>

definition action_buttons :: "session \<Rightarrow> (staff_action \<times> bool) list" where
  "action_buttons s =
     (case customer s of
        None \<Rightarrow> []
      | Some c \<Rightarrow>
          if \<not> isStarted c
          then [(act_start, session_loading s), (act_no_show, session_loading s)]
          else [(act_complete, session_loading s)])"

text \<open>
  \<open>handleAction\<close> up to its \<open>await\<close>: it sets \<open>loading\<close> and issues one update request.
  The counter and staff identifiers are the props' defaults, which the staff page passes.
\<close>

definition handleAction :: "session \<Rightarrow> queue_entry \<Rightarrow> staff_action \<Rightarrow> session \<times> staff_request" where
  "handleAction s c a =
     (s\<lparr>session_loading := True\<rparr>,
      \<lparr>queue_id = entry_id c, action = a, counter_number = 1, staff_id = 1\<rparr>)"

text \<open>
  A click on the button of action \<open>a\<close>: it reaches \<open>handleAction\<close> only when that button
  is rendered and not disabled.
\<close>

definition click_action :: "session \<Rightarrow> staff_action \<Rightarrow> session \<times> staff_request option" where
  "click_action s a =
     (case customer s of
        None \<Rightarrow> (s, None)
      | Some c \<Rightarrow>
          if (a, False) \<in> set (action_buttons s)
          then (let (s', r) = handleAction s c a in (s', Some r))
          else (s, None))"


section \<open>WalkInForm: the booking wizard\<close>

record time_slot =
  slot_time :: string
  available :: bool

text \<open>
  The component's state cells and its \<open>mode\<close> prop. Every handler below takes the state of
  the render it was created in and returns the state after its updates, together with the
  booking request it issues, if any. Handlers attached to a rendered control are guarded
  by the control's render condition (the step it is shown on) and its \<open>disabled\<close> flag.
\<close>

datatype mode = walk_in | pre_book

record service_entry =
  service_id :: string
  service_name :: string
  base_duration_min :: int

record wizard =
  step :: nat
  mobile :: string
  name :: string
  age :: string
  isDisabled :: bool
  selectedService :: "string option"
  isListening :: bool
  services :: "service_entry list"
  loading :: bool
  error :: string
  selectedDate :: string
  selectedTimeSlot :: "string option"
  availableSlots :: "time_slot list"

record booking_request =
  req_mobile :: string
  req_name :: string
  req_age :: "int option"
  req_is_disabled :: bool
  req_service_type :: "string option"
  req_booking_type :: string
  req_scheduled_time :: "string option"

record booking_result =
  success :: bool
  result_token :: string

datatype 'a outcome = Resolved 'a | Rejected

text \<open>
  The mobile input's \<open>onChange\<close>: \<open>setMobile(e.target.value.replace(/\D/g, '').slice(0, 10))\<close>,
  and the Next Step button of step 1.
\<close>

definition setMobile_onChange :: "wizard \<Rightarrow> string \<Rightarrow> wizard" where
  "setMobile_onChange s v = s\<lparr>mobile := slice0 10 (strip_non_digits v)\<rparr>"

definition click_next :: "wizard \<Rightarrow> wizard" where
  "click_next s =
     (if step s = 1
      then (if length (mobile s) = 10 then s\<lparr>step := 2\<rparr>
            else s\<lparr>error := ''Please enter a valid 10-digit mobile number''\<rparr>)
      else s)"

text \<open>
  The scheduled time of \<open>handleBookSlot\<close>: the date and the slot are split, parsed and
  passed to \<open>new Date\<close>, and the date's local fields are formatted by hand.
  \<open>parseInt(parts[i])\<close> of a missing part is \<open>NaN\<close>.
\<close>

definition parseInt_at :: "string list \<Rightarrow> nat \<Rightarrow> int option" where
  "parseInt_at parts i = (case nth_opt parts i of None \<Rightarrow> None | Some p \<Rightarrow> parseInt p)"

definition pad :: "int option \<Rightarrow> string" where
  "pad n = padStart 2 (CHR ''0'') (num_toString n)"

definition scheduledTime :: "host_zone \<Rightarrow> string \<Rightarrow> string \<Rightarrow> string" where
  "scheduledTime z selDate slot =
     (let dateParts = js_split (CHR ''-'') selDate;
          timeParts = js_split (CHR '':'') slot;
          date = new_Date z (parseInt_at dateParts 0)
                   (map_option (\<lambda>m. m - 1) (parseInt_at dateParts 1))
                   (parseInt_at dateParts 2)
                   (parseInt_at timeParts 0)
                   (parseInt_at timeParts 1)
      in num_toString (getFullYear z date) @ ''-''
         @ pad (map_option (\<lambda>m. m + 1) (getMonth z date)) @ ''-''
         @ pad (getDate z date) @ ''T''
         @ pad (getHours z date) @ '':''
         @ pad (getMinutes z date) @ '':00'')"

text \<open>
  \<open>handleBookSlot\<close> up to its \<open>await\<close>: the two validation returns, then \<open>loading\<close> is
  set, the error is cleared and one request is issued. \<open>bookSlot_settled\<close> is the rest:
  \<open>onComplete\<close> is called with a successful result, a rejection sets the error, and
  \<open>loading\<close> is cleared in both cases.
\<close>

definition handleBookSlot ::
  "host_zone \<Rightarrow> mode \<Rightarrow> wizard \<Rightarrow> string option \<Rightarrow> wizard \<times> booking_request option" where
  "handleBookSlot z m s serviceId =
     (if mobile s = [] \<or> length (mobile s) < 10
      then (s\<lparr>error := ''Please enter a valid mobile number''\<rparr>, None)
      else if m = pre_book \<and> \<not> truthy_str (selectedTimeSlot s)
      then (s\<lparr>error := ''Please select a time slot''\<rparr>, None)
      else (s\<lparr>loading := True, error := []\<rparr>,
            Some \<lparr>req_mobile = mobile s,
                  req_name = (if name s \<noteq> [] then name s
                              else if m = pre_book then ''Pre-booked Customer''
                              else ''Walk-in Customer''),
                  req_age = parseInt (age s),
                  req_is_disabled = isDisabled s,
                  req_service_type = js_or_str serviceId (selectedService s),
                  req_booking_type = (if m = pre_book then ''pre_booked'' else ''walk_in''),
                  req_scheduled_time =
                    (if m = pre_book \<and> truthy_str (selectedTimeSlot s)
                     then Some (scheduledTime z (selectedDate s) (the (selectedTimeSlot s)))
                     else None)\<rparr>))"

definition bookSlot_settled ::
  "wizard \<Rightarrow> booking_result outcome \<Rightarrow> wizard \<times> booking_result option" where
  "bookSlot_settled s out =
     (case out of
        Resolved result \<Rightarrow>
          (s\<lparr>loading := False\<rparr>, if success result then Some result else None)
      | Rejected \<Rightarrow>
          (s\<lparr>error := ''Booking failed. Please try again.'', loading := False\<rparr>, None))"

text \<open>
  \<open>handleVoiceResult\<close>: the first catalog entry whose lower-cased name, or lower-cased
  name with its first underscore replaced by a space, occurs in the lower-cased transcript.
  The nested \<open>handleBookSlot\<close> call reads the state of the same render, so its updates
  and the two updates made here apply to that state. The handler consults neither the
  step nor \<open>loading\<close>.
\<close>

definition voice_match :: "string \<Rightarrow> service_entry \<Rightarrow> bool" where
  "voice_match text sv \<longleftrightarrow>
     str_includes text (toLowerCase (service_name sv)) \<or>
     str_includes text (toLowerCase (replace_first (CHR ''_'') (CHR '' '') (service_name sv)))"

definition handleVoiceResult ::
  "host_zone \<Rightarrow> mode \<Rightarrow> wizard \<Rightarrow> string \<Rightarrow> wizard \<times> booking_request option" where
  "handleVoiceResult z m s transcript =
     (let text = toLowerCase transcript in
      case find (voice_match text) (services s) of
        None \<Rightarrow> (s, None)
      | Some foundService \<Rightarrow>
          (if length (mobile s) = 10 \<and> m = walk_in
           then (let (s', r) = handleBookSlot z m s (Some (service_id foundService))
                 in (s'\<lparr>selectedService := Some (service_id foundService),
                         isListening := False\<rparr>, r))
           else (s\<lparr>selectedService := Some (service_id foundService),
                   isListening := False\<rparr>, None)))"

text \<open>
  The delivery of a recognition result by the \<open>VoiceInput\<close> control, its
  \<open>recognition.onresult\<close>: the transcript is passed to \<open>onSpeechResult\<close>, which is
  \<open>handleVoiceResult\<close>, and then \<open>setIsListening(false)\<close> is called, whether or not the
  transcript matched. The lower-casing above is the platform's on ASCII text, which is
  what \<open>ascii_voice_input\<close> asks of the transcript and of the catalog names.
\<close>

definition recognition_onresult ::
  "host_zone \<Rightarrow> mode \<Rightarrow> wizard \<Rightarrow> string \<Rightarrow> wizard \<times> booking_request option" where
  "recognition_onresult z m s transcript =
     (let (s', r) = handleVoiceResult z m s transcript in (s'\<lparr>isListening := False\<rparr>, r))"

definition is_ascii :: "string \<Rightarrow> bool" where
  "is_ascii str \<longleftrightarrow> (\<forall>c \<in> set str. \<not> digit7 c)"

definition ascii_voice_input :: "wizard \<Rightarrow> string \<Rightarrow> bool" where
  "ascii_voice_input s transcript \<longleftrightarrow>
     is_ascii transcript \<and> (\<forall>sv \<in> set (services s). is_ascii (service_name sv))"

text \<open>
  The service buttons of step 2 (\<open>disabled={loading}\<close>), the slot buttons of step 3
  (\<open>disabled={!slot.available}\<close>) and the confirm button of step 3
  (\<open>disabled={loading || !selectedTimeSlot}\<close>).
\<close>

definition click_service ::
  "host_zone \<Rightarrow> mode \<Rightarrow> wizard \<Rightarrow> service_entry \<Rightarrow> wizard \<times> booking_request option" where
  "click_service z m s sv =
     (if step s = 2 \<and> sv \<in> set (services s) \<and> \<not> loading s
      then (if m = pre_book
            then (s\<lparr>selectedService := Some (service_id sv), step := 3\<rparr>, None)
            else (let (s', r) = handleBookSlot z m s (Some (service_id sv))
                  in (s'\<lparr>selectedService := Some (service_id sv)\<rparr>, r)))
      else (s, None))"

definition click_slot :: "mode \<Rightarrow> wizard \<Rightarrow> time_slot \<Rightarrow> wizard" where
  "click_slot m s slot =
     (if step s = 3 \<and> m = pre_book \<and> slot \<in> set (availableSlots s) \<and> available slot
      then s\<lparr>selectedTimeSlot := Some (slot_time slot)\<rparr>
      else s)"

definition click_confirm ::
  "host_zone \<Rightarrow> mode \<Rightarrow> wizard \<Rightarrow> wizard \<times> booking_request option" where
  "click_confirm z m s =
     (if step s = 3 \<and> m = pre_book \<and> \<not> (loading s \<or> \<not> truthy_str (selectedTimeSlot s))
      then handleBookSlot z m s None
      else (s, None))"

definition initial_wizard :: "string \<Rightarrow> wizard" where
  "initial_wizard today =
     \<lparr>step = 1, mobile = [], name = [], age = ''30'', isDisabled = False,
      selectedService = None, isListening = False, services = [], loading = False,
      error = [], selectedDate = today, selectedTimeSlot = None, availableSlots = []\<rparr>"

text \<open>
  \<open>generateSlots\<close>: \<open>start\<close> runs from 9 while \<open>start < 17\<close>, pushing the \<open>:00\<close> and the
  \<open>:30\<close> slot of each hour; then every slot gets \<open>available = Math.random() > 0.3\<close>.
  The random draws are the parameter \<open>rnd\<close>: \<open>rnd i\<close> is the draw made for the slot at
  index \<open>i\<close>.
\<close>

function slots_loop :: "nat \<Rightarrow> string list \<Rightarrow> string list" where
  "slots_loop start slots =
     (if start < 17
      then slots_loop (start + 1) (slots @ [pad2 start @ '':00'', pad2 start @ '':30''])
      else slots)"
  by pat_completeness auto
termination
  by (relation "measure (\<lambda>(start, slots). 17 - start)") auto

declare slots_loop.simps [simp del]

definition generateSlots :: "(nat \<Rightarrow> real) \<Rightarrow> time_slot list" where
  "generateSlots rnd =
     map (\<lambda>(i, s). \<lparr>slot_time = s, available = (rnd i > 0.3)\<rparr>)
         (enumerate 0 (slots_loop 9 []))"


section \<open>CheckInScreen: the check-in lookup\<close>

datatype checkin_status = st_scanning | st_input | st_processing | st_success | st_error

record checkin_response =
  resp_success :: bool
  resp_message :: "string option"
  resp_token_number :: string

record checkin =
  ci_status :: checkin_status
  ci_message :: "string option"
  ci_details :: "checkin_response option"

text \<open>
  \<open>handleMobileSubmit\<close>. Up to the \<open>await\<close>: a mobile whose length is not 10 returns
  without a transition and without a request; otherwise the status becomes processing
  and one lookup request (the mobile) is issued. After it: a response with a truthy
  \<open>success\<close> leads to success (and schedules \<open>onComplete\<close>, the second component), any
  other response to error with \<open>result.message || 'No appointment found'\<close>, and a thrown
  request to error with a fixed message.
\<close>

definition handleMobileSubmit_begin :: "checkin \<Rightarrow> string \<Rightarrow> checkin \<times> string option" where
  "handleMobileSubmit_begin s mobile_value =
     (if length mobile_value \<noteq> 10 then (s, None)
      else (s\<lparr>ci_status := st_processing, ci_message := Some ''Verifying appointment...''\<rparr>,
            Some mobile_value))"

definition handleMobileSubmit_settled ::
  "checkin \<Rightarrow> checkin_response outcome \<Rightarrow> checkin \<times> checkin_response option" where
  "handleMobileSubmit_settled s out =
     (case out of
        Resolved result \<Rightarrow>
          if resp_success result
          then (s\<lparr>ci_status := st_success, ci_details := Some result,
                   ci_message := resp_message result\<rparr>, Some result)
          else (s\<lparr>ci_status := st_error,
                   ci_message := js_or_str (resp_message result) (Some ''No appointment found'')\<rparr>,
                None)
      | Rejected \<Rightarrow>
          (s\<lparr>ci_status := st_error, ci_message := Some ''Check-in failed. Please try again.''\<rparr>,
           None))"

definition handleMobileSubmit ::
  "checkin \<Rightarrow> string \<Rightarrow> checkin_response outcome \<Rightarrow> checkin \<times> checkin_response option" where
  "handleMobileSubmit s mobile_value out =
     (case handleMobileSubmit_begin s mobile_value of
        (s', None) \<Rightarrow> (s', None)
      | (s', Some request) \<Rightarrow> handleMobileSubmit_settled s' out)"

definition awaiting_input :: checkin where
  "awaiting_input =
     \<lparr>ci_status = st_input, ci_message = Some ''Please enter your registered mobile number'',
      ci_details = None\<rparr>"


section \<open>Example states\<close>

definition demo_slots :: "time_slot list" where
  "demo_slots = [\<lparr>slot_time = ''09:00'', available = False\<rparr>,
                 \<lparr>slot_time = ''09:30'', available = True\<rparr>]"

definition demo_catalog :: "service_entry list" where
  "demo_catalog = [\<lparr>service_id = ''Cash_Deposit'', service_name = ''Cash_Deposit'',
                    base_duration_min = 5\<rparr>]"

definition step3_wizard :: wizard where
  "step3_wizard = (initial_wizard ''2026-11-03'')
     \<lparr>step := 3, mobile := ''9876543210'', selectedService := Some ''Forex'',
      services := demo_catalog, availableSlots := demo_slots\<rparr>"

definition long_name_catalog :: "service_entry list" where
  "long_name_catalog = [\<lparr>service_id = ''Fixed_Deposit_Account'',
                          service_name = ''Fixed_Deposit_Account'', base_duration_min = 10\<rparr>]"

definition step2_wizard :: wizard where
  "step2_wizard = (initial_wizard ''2026-11-03'')
     \<lparr>step := 2, mobile := ''9876543210'', services := demo_catalog\<rparr>"

definition ist :: host_zone where
  "ist = fixed_offset_zone 19800000"

section \<open>Theorems\<close>

subsection \<open>Calendar arithmetic\<close>

lemma DayFromYear_strict_mono: "y < y' \<Longrightarrow> DayFromYear y < DayFromYear y'"
proof -
  assume "y < y'"
  then have "y + 1 \<le> y'" by simp
  then show ?thesis
  proof (induction y' rule: int_ge_induct)
    case base
    show ?case using DayFromYear_pred_less [of "y + 1"] by simp
  next
    case (step i)
    then show ?case using DayFromYear_pred_less [of "i + 1"] by simp
  qed
qed

lemma DayFromYear_mono: "y \<le> y' \<Longrightarrow> DayFromYear y \<le> DayFromYear y'"
  using DayFromYear_strict_mono [of y y'] by (cases "y = y'") auto

lemma DayFromYear_1970: "DayFromYear 1970 = 0"
  by (simp add: DayFromYear_def)

lemma DayFromYear_lower_after: "1970 \<le> y \<Longrightarrow> 365 * (y - 1970) \<le> DayFromYear y"
proof (induction y rule: int_ge_induct)
  case base
  show ?case by (simp add: DayFromYear_1970)
next
  case (step i)
  then show ?case using DayFromYear_succ [of i] DaysInYear_bounds(1) [of i] by simp
qed

lemma DayFromYear_lower_before: "y \<le> 1970 \<Longrightarrow> 366 * (y - 1970) \<le> DayFromYear y"
proof (induction y rule: int_le_induct)
  case base
  show ?case by (simp add: DayFromYear_1970)
next
  case (step i)
  then show ?case using DayFromYear_succ [of "i - 1"] DaysInYear_bounds(2) [of "i - 1"] by simp
qed

lemma year_estimate:
  assumes "DayFromYear y \<le> d"
  shows "y \<le> 1970 + (if 0 \<le> d then d div 365 else d div 366)"
proof (cases "0 \<le> d")
  case True
  show ?thesis
  proof (cases "1970 \<le> y")
    case y: True
    have "365 * (y - 1970) \<le> d" using DayFromYear_lower_after [OF y] assms by simp
    then have "(365 * (y - 1970)) div 365 \<le> d div 365" by (intro zdiv_mono1) auto
    then show ?thesis using True by simp
  next
    case False
    have "0 \<le> d div 365" using True by (simp add: pos_imp_zdiv_nonneg_iff)
    then show ?thesis using True False by simp
  qed
next
  case False
  have y: "y < 1970"
  proof (rule ccontr)
    assume "\<not> y < 1970"
    then have "DayFromYear 1970 \<le> DayFromYear y" by (intro DayFromYear_mono) simp
    then show False using assms False by (simp add: DayFromYear_1970)
  qed
  have "366 * (y - 1970) \<le> d" using DayFromYear_lower_before [of y] y assms by simp
  then have "(366 * (y - 1970)) div 366 \<le> d div 366" by (intro zdiv_mono1) auto
  then show ?thesis using False by simp
qed

lemma year_search_correct:
  "DayFromYear y \<le> d \<Longrightarrow> d < DayFromYear (y + 1) \<Longrightarrow> y \<le> s \<Longrightarrow> year_search d s = y"
proof (induction d s rule: year_search.induct)
  case (1 d s)
  show ?case
  proof (cases "d < DayFromYear s")
    case True
    have "y \<noteq> s" using True "1.prems"(1) by auto
    then have "y \<le> s - 1" using "1.prems"(3) by simp
    then have "year_search d (s - 1) = y" using "1.IH" [OF True "1.prems"(1,2)] by simp
    then show ?thesis using True by (simp add: year_search.simps [of d s])
  next
    case False
    have "\<not> y + 1 \<le> s"
    proof
      assume "y + 1 \<le> s"
      then have "DayFromYear (y + 1) \<le> DayFromYear s" by (rule DayFromYear_mono)
      then show False using False "1.prems"(2) by simp
    qed
    then have "s = y" using "1.prems"(3) by simp
    then show ?thesis using False year_search.simps [of d s] by simp
  qed
qed

lemma YearFromDay_correct:
  "DayFromYear y \<le> d \<Longrightarrow> d < DayFromYear (y + 1) \<Longrightarrow> YearFromDay d = y"
  unfolding YearFromDay_def by (rule year_search_correct) (simp_all only: year_estimate)


lemma month_of_offset_fixed:
  assumes L: "L = 0 \<or> L = (1::int)" and dd: "1 \<le> dd"
    shows "dd \<le> 31 \<Longrightarrow> int (length (filter (\<lambda>s. s \<le> month_starts L ! 0 + dd - 1) (month_starts L))) - 1 = 0"
    and "dd \<le> 28 + L \<Longrightarrow> int (length (filter (\<lambda>s. s \<le> month_starts L ! 1 + dd - 1) (month_starts L))) - 1 = 1"
    and "dd \<le> 31 \<Longrightarrow> int (length (filter (\<lambda>s. s \<le> month_starts L ! 2 + dd - 1) (month_starts L))) - 1 = 2"
    and "dd \<le> 30 \<Longrightarrow> int (length (filter (\<lambda>s. s \<le> month_starts L ! 3 + dd - 1) (month_starts L))) - 1 = 3"
    and "dd \<le> 31 \<Longrightarrow> int (length (filter (\<lambda>s. s \<le> month_starts L ! 4 + dd - 1) (month_starts L))) - 1 = 4"
    and "dd \<le> 30 \<Longrightarrow> int (length (filter (\<lambda>s. s \<le> month_starts L ! 5 + dd - 1) (month_starts L))) - 1 = 5"
    and "dd \<le> 31 \<Longrightarrow> int (length (filter (\<lambda>s. s \<le> month_starts L ! 6 + dd - 1) (month_starts L))) - 1 = 6"
    and "dd \<le> 31 \<Longrightarrow> int (length (filter (\<lambda>s. s \<le> month_starts L ! 7 + dd - 1) (month_starts L))) - 1 = 7"
    and "dd \<le> 30 \<Longrightarrow> int (length (filter (\<lambda>s. s \<le> month_starts L ! 8 + dd - 1) (month_starts L))) - 1 = 8"
    and "dd \<le> 31 \<Longrightarrow> int (length (filter (\<lambda>s. s \<le> month_starts L ! 9 + dd - 1) (month_starts L))) - 1 = 9"
    and "dd \<le> 30 \<Longrightarrow> int (length (filter (\<lambda>s. s \<le> month_starts L ! 10 + dd - 1) (month_starts L))) - 1 = 10"
    and "dd \<le> 31 \<Longrightarrow> int (length (filter (\<lambda>s. s \<le> month_starts L ! 11 + dd - 1) (month_starts L))) - 1 = 11"
  using L dd by (auto simp: month_starts_def)

lemma offset_in_year_fixed:
  assumes L: "L = 0 \<or> L = (1::int)" and dd: "1 \<le> dd"
    shows "dd \<le> 31 \<Longrightarrow> 0 \<le> month_starts L ! 0 + dd - 1 \<and> month_starts L ! 0 + dd - 1 < 365 + L"
    and "dd \<le> 28 + L \<Longrightarrow> 0 \<le> month_starts L ! 1 + dd - 1 \<and> month_starts L ! 1 + dd - 1 < 365 + L"
    and "dd \<le> 31 \<Longrightarrow> 0 \<le> month_starts L ! 2 + dd - 1 \<and> month_starts L ! 2 + dd - 1 < 365 + L"
    and "dd \<le> 30 \<Longrightarrow> 0 \<le> month_starts L ! 3 + dd - 1 \<and> month_starts L ! 3 + dd - 1 < 365 + L"
    and "dd \<le> 31 \<Longrightarrow> 0 \<le> month_starts L ! 4 + dd - 1 \<and> month_starts L ! 4 + dd - 1 < 365 + L"
    and "dd \<le> 30 \<Longrightarrow> 0 \<le> month_starts L ! 5 + dd - 1 \<and> month_starts L ! 5 + dd - 1 < 365 + L"
    and "dd \<le> 31 \<Longrightarrow> 0 \<le> month_starts L ! 6 + dd - 1 \<and> month_starts L ! 6 + dd - 1 < 365 + L"
    and "dd \<le> 31 \<Longrightarrow> 0 \<le> month_starts L ! 7 + dd - 1 \<and> month_starts L ! 7 + dd - 1 < 365 + L"
    and "dd \<le> 30 \<Longrightarrow> 0 \<le> month_starts L ! 8 + dd - 1 \<and> month_starts L ! 8 + dd - 1 < 365 + L"
    and "dd \<le> 31 \<Longrightarrow> 0 \<le> month_starts L ! 9 + dd - 1 \<and> month_starts L ! 9 + dd - 1 < 365 + L"
    and "dd \<le> 30 \<Longrightarrow> 0 \<le> month_starts L ! 10 + dd - 1 \<and> month_starts L ! 10 + dd - 1 < 365 + L"
    and "dd \<le> 31 \<Longrightarrow> 0 \<le> month_starts L ! 11 + dd - 1 \<and> month_starts L ! 11 + dd - 1 < 365 + L"
  using L dd by (auto simp: month_starts_def)

lemma days_in_month_values:
  "days_in_month y 1 = 31" "days_in_month y 2 = 28 + (DaysInYear y - 365)"
  "days_in_month y 3 = 31" "days_in_month y 4 = 30" "days_in_month y 5 = 31"
  "days_in_month y 6 = 30" "days_in_month y 7 = 31" "days_in_month y 8 = 31"
  "days_in_month y 9 = 30" "days_in_month y 10 = 31" "days_in_month y 11 = 30"
  "days_in_month y 12 = 31"
  by (simp_all add: days_in_month_def)

lemma month_cases:
  "1 \<le> mo \<Longrightarrow> mo \<le> 12 \<Longrightarrow>
   mo = 1 \<or> mo = 2 \<or> mo = 3 \<or> mo = 4 \<or> mo = 5 \<or> mo = 6 \<or>
   mo = 7 \<or> mo = 8 \<or> mo = 9 \<or> mo = 10 \<or> mo = 11 \<or> mo = (12::int)"
  by arith

lemma leap_cases: "DaysInYear y - 365 = 0 \<or> DaysInYear y - 365 = 1"
  by (simp add: DaysInYear_def)

lemma month_of_offset:
  assumes "1 \<le> mo" "mo \<le> 12" "1 \<le> dd" "dd \<le> days_in_month y mo"
  shows "int (length (filter (\<lambda>s. s \<le> month_starts (DaysInYear y - 365) ! nat (mo - 1) + dd - 1)
                             (month_starts (DaysInYear y - 365)))) - 1 = mo - 1"
  using month_cases [OF assms(1,2)] assms(4)
        month_of_offset_fixed [OF leap_cases [of y] assms(3)]
  by (elim disjE) (simp_all add: days_in_month_values)

lemma offset_in_year:
  assumes "1 \<le> mo" "mo \<le> 12" "1 \<le> dd" "dd \<le> days_in_month y mo"
  shows "0 \<le> month_starts (DaysInYear y - 365) ! nat (mo - 1) + dd - 1 \<and>
         month_starts (DaysInYear y - 365) ! nat (mo - 1) + dd - 1 < DaysInYear y"
  using month_cases [OF assms(1,2)] assms(4)
        offset_in_year_fixed [OF leap_cases [of y] assms(3)]
  by (elim disjE) (simp_all add: days_in_month_values)

lemma MakeDay_valid:
  assumes "1 \<le> mo" "mo \<le> 12"
  shows "MakeDay y (mo - 1) dd
           = DayFromYear y + month_starts (DaysInYear y - 365) ! nat (mo - 1) + dd - 1"
proof -
  have "(mo - 1) div 12 = 0" "(mo - 1) mod 12 = mo - 1" using assms by simp_all
  then show ?thesis by (simp add: MakeDay_def)
qed

lemma civil_roundtrip:
  assumes "1 \<le> mo" "mo \<le> 12" "1 \<le> dd" "dd \<le> days_in_month y mo"
  shows "YearFromDay (MakeDay y (mo - 1) dd) = y"
    and "MonthFromDay (MakeDay y (mo - 1) dd) = mo - 1"
    and "DateFromDay (MakeDay y (mo - 1) dd) = dd"
proof -
  define w where "w = month_starts (DaysInYear y - 365) ! nat (mo - 1) + dd - 1"
  have md: "MakeDay y (mo - 1) dd = DayFromYear y + w"
    using MakeDay_valid [OF assms(1,2)] by (simp add: w_def)
  have w: "0 \<le> w" "w < DaysInYear y"
    using offset_in_year [OF assms] by (simp_all add: w_def)
  show yr: "YearFromDay (MakeDay y (mo - 1) dd) = y"
    unfolding md using w by (intro YearFromDay_correct) (simp_all add: DayFromYear_succ)
  have mw: "int (length (filter (\<lambda>s. s \<le> w) (month_starts (DaysInYear y - 365)))) - 1 = mo - 1"
    using month_of_offset [OF assms] by (simp add: w_def)
  show mn: "MonthFromDay (MakeDay y (mo - 1) dd) = mo - 1"
    unfolding MonthFromDay_def yr Let_def unfolding md using mw by simp
  show "DateFromDay (MakeDay y (mo - 1) dd) = dd"
    unfolding DateFromDay_def yr mn Let_def unfolding md by (simp add: w_def)
qed

lemma time_of_day:
  assumes "0 \<le> h" "h \<le> 23" "0 \<le> mi" "mi \<le> 59"
  shows "(D * msPerDay + (h * msPerHour + mi * msPerMinute)) div msPerDay = D"
    and "(D * msPerDay + (h * msPerHour + mi * msPerMinute)) div msPerHour mod 24 = h"
    and "(D * msPerDay + (h * msPerHour + mi * msPerMinute)) div msPerMinute mod 60 = mi"
proof -
  have r: "0 \<le> h * 3600000 + mi * 60000" "h * 3600000 + mi * 60000 < 86400000"
    using assms by simp_all
  have "(D * 86400000 + (h * 3600000 + mi * 60000)) div 86400000
          = D + (h * 3600000 + mi * 60000) div 86400000"
    by simp
  also have "\<dots> = D" using r by simp
  finally show "(D * msPerDay + (h * msPerHour + mi * msPerMinute)) div msPerDay = D"
    by (simp add: msPerDay_def msPerHour_def msPerMinute_def)
  have e1: "D * 86400000 + (h * 3600000 + mi * 60000) = (D * 24 + h) * 3600000 + mi * 60000"
    by simp
  have "(D * 86400000 + (h * 3600000 + mi * 60000)) div 3600000
          = D * 24 + h + (mi * 60000) div 3600000"
    unfolding e1 by simp
  also have "\<dots> = D * 24 + h" using assms by simp
  finally have "(D * 86400000 + (h * 3600000 + mi * 60000)) div 3600000 mod 24 = h"
    using assms by simp
  then show "(D * msPerDay + (h * msPerHour + mi * msPerMinute)) div msPerHour mod 24 = h"
    by (simp add: msPerDay_def msPerHour_def msPerMinute_def)
  have e2: "D * 86400000 + (h * 3600000 + mi * 60000) = ((D * 24 + h) * 60 + mi) * 60000"
    by simp
  have e3: "(D * 86400000 + (h * 3600000 + mi * 60000)) div 60000 = (D * 24 + h) * 60 + mi"
    unfolding e2 by simp
  have "((D * 24 + h) * 60 + mi) mod 60 = mi mod 60" by (rule mod_mult_self3)
  also have "\<dots> = mi" using assms by simp
  finally have "(D * 86400000 + (h * 3600000 + mi * 60000)) div 60000 mod 60 = mi"
    unfolding e3 .
  then show "(D * msPerDay + (h * msPerHour + mi * msPerMinute)) div msPerMinute mod 60 = mi"
    by (simp add: msPerDay_def msPerHour_def msPerMinute_def)
qed


subsection \<open>Claims\<close>

lemma pad2_values:
  "pad2 9 = ''09''" "pad2 10 = ''10''" "pad2 11 = ''11''" "pad2 12 = ''12''"
  "pad2 13 = ''13''" "pad2 14 = ''14''" "pad2 15 = ''15''" "pad2 16 = ''16''"
  by (simp_all add: pad2_def padStart_def nat_toString.simps digit_char_def)

lemma slots_loop_from_9:
  "slots_loop 9 [] =
     [''09:00'', ''09:30'', ''10:00'', ''10:30'', ''11:00'', ''11:30'', ''12:00'', ''12:30'',
      ''13:00'', ''13:30'', ''14:00'', ''14:30'', ''15:00'', ''15:30'', ''16:00'', ''16:30'']"
  by (simp add: slots_loop.simps pad2_values)

text \<open>
  Claim C10. Whatever the random draws are, \<open>generateSlots\<close> produces exactly the 16
  slots 09:00, 09:30, ..., 16:30 in this order; only the \<open>available\<close> flags depend on
  the draws.
\<close>

theorem generateSlots_times:
  "map slot_time (generateSlots rnd) =
     [''09:00'', ''09:30'', ''10:00'', ''10:30'', ''11:00'', ''11:30'', ''12:00'', ''12:30'',
      ''13:00'', ''13:30'', ''14:00'', ''14:30'', ''15:00'', ''15:30'', ''16:00'', ''16:30'']
   \<and> length (generateSlots rnd) = 16"
  by (simp add: generateSlots_def slots_loop_from_9 enumerate_eq_zip upt_rec)


lemma deriveView_spec_counter_1:
  "deriveView_spec data 1 =
     (let current = (case find is_mine data of Some m \<Rightarrow> Some m | None \<Rightarrow> find is_active data)
      in (current,
          filter (\<lambda>q. is_active q \<and>
                       (case current of None \<Rightarrow> True | Some c \<Rightarrow> entry_id q \<noteq> entry_id c))
                 data))"
  unfolding deriveView_spec_def is_mine_def [abs_def] is_active_def [abs_def] by simp

lemma no_active_filter_conj:
  "find is_active data = None \<Longrightarrow> filter (\<lambda>q. P q \<and> is_active q) data = []"
  by (auto simp: find_None_iff filter_empty_conv)

lemma no_active_filter:
  "find is_active data = None \<Longrightarrow> filter is_active data = []"
  by (auto simp: find_None_iff filter_empty_conv)

lemma fetchQueue_remaining_mine:
  assumes "find is_mine data = Some m"
  shows "queue (fetchQueue st (Some data))
           = filter (\<lambda>q. (entry_id m \<noteq> 0 \<longrightarrow> entry_id q \<noteq> entry_id m) \<and> is_active q) data"
  using assms by (auto simp: fetchQueue_def Let_def js_or_num_def intro!: filter_cong)

lemma spec_remaining_mine:
  assumes "find is_mine data = Some m"
  shows "snd (deriveView_spec data 1)
           = filter (\<lambda>q. is_active q \<and> entry_id q \<noteq> entry_id m) data"
  using assms unfolding deriveView_spec_counter_1 by simp

lemma fetchQueue_remaining_iff:
  "queue (fetchQueue st (Some data)) = snd (deriveView_spec data 1) \<longleftrightarrow> \<not> zero_id_clash data"
proof (cases "find is_mine data")
  case None
  have "queue (fetchQueue st (Some data)) = snd (deriveView_spec data 1)"
  proof (cases "find is_active data")
    case nx: None
    with None show ?thesis
      unfolding deriveView_spec_counter_1
      by (simp add: fetchQueue_def Let_def js_or_num_def no_active_filter_conj no_active_filter)
  next
    case nx: (Some n)
    with None show ?thesis
      unfolding deriveView_spec_counter_1
      by (auto simp: fetchQueue_def Let_def js_or_num_def intro!: filter_cong)
  qed
  then show ?thesis using None by (simp add: zero_id_clash_def)
next
  case (Some m)
  note code = fetchQueue_remaining_mine [OF Some, of st]
  note spec = spec_remaining_mine [OF Some]
  show ?thesis
  proof (cases "entry_id m = 0")
    case False
    then have "queue (fetchQueue st (Some data)) = snd (deriveView_spec data 1)"
      unfolding code spec by (auto intro!: filter_cong)
    then show ?thesis using Some False by (simp add: zero_id_clash_def)
  next
    case True
    show ?thesis
    proof (cases "\<exists>q \<in> set data. is_active q \<and> entry_id q = 0")
      case clash: True
      then obtain q where q: "q \<in> set data" "is_active q" "entry_id q = 0" by blast
      have "q \<in> set (queue (fetchQueue st (Some data)))" unfolding code using q True by simp
      moreover have "q \<notin> set (snd (deriveView_spec data 1))" unfolding spec using q True by simp
      ultimately have "queue (fetchQueue st (Some data)) \<noteq> snd (deriveView_spec data 1)" by metis
      then show ?thesis using Some True clash by (simp add: zero_id_clash_def)
    next
      case noclash: False
      then have "queue (fetchQueue st (Some data)) = snd (deriveView_spec data 1)"
        unfolding code spec using True by (auto intro!: filter_cong)
      then show ?thesis using Some True noclash by (simp add: zero_id_clash_def)
    qed
  qed
qed

lemma distinct_ids_no_clash:
  assumes "distinct (map entry_id data)"
  shows "\<not> zero_id_clash data"
proof
  assume "zero_id_clash data"
  then obtain m q where m: "find is_mine data = Some m" "entry_id m = 0"
    and q: "q \<in> set data" "is_active q" "entry_id q = 0"
    by (auto simp: zero_id_clash_def split: option.splits)
  have mm: "m \<in> set data" "is_mine m" using m(1) by (auto simp: find_Some_iff)
  have "m \<noteq> q" using mm(2) q(2) by (auto simp: is_mine_def is_active_def)
  moreover have inj: "inj_on entry_id (set data)" using assms by (simp add: distinct_map)
  have "entry_id m = entry_id q" using m(2) q(3) by simp
  then have "m = q" by (rule inj_onD [OF inj _ mm(1) q(1)])
  ultimately show False by simp
qed

lemma fetchQueue_current:
  "currentCustomer (fetchQueue st (Some data)) = fst (deriveView_spec data 1)"
  unfolding deriveView_spec_counter_1
  by (simp add: fetchQueue_def Let_def split: option.splits)

lemma fetchQueue_remaining_active:
  "q \<in> set (queue (fetchQueue st (Some data))) \<Longrightarrow> status q = waiting \<or> status q = checked_in"
  by (auto simp: fetchQueue_def Let_def is_active_def)

text \<open>
  Claim C1, as the code has it. \<open>fetchQueue\<close> takes no counter: its counter is the
  constant 1. For every snapshot it sets the current customer to the first entry in
  progress at counter 1, else to the first waiting or checked-in entry, else to none, and
  the remaining queue holds waiting and checked-in entries only. The remaining queue is
  exactly the waiting and checked-in entries whose id differs from the current
  customer's on every snapshot but those where the entry in progress at counter 1 has
  the id 0 and a waiting or checked-in entry has the id 0 as well. In particular, on
  every snapshot whose ids are pairwise distinct the remaining queue is that list and
  does not contain the current customer's id.
\<close>

theorem fetchQueue_refines_deriveView:
  "currentCustomer (fetchQueue st (Some data)) = fst (deriveView_spec data 1)
   \<and> (\<forall>q \<in> set (queue (fetchQueue st (Some data))).
         status q = waiting \<or> status q = checked_in)
   \<and> (queue (fetchQueue st (Some data)) = snd (deriveView_spec data 1)
        \<longleftrightarrow> \<not> zero_id_clash data)
   \<and> (distinct (map entry_id data) \<longrightarrow>
        queue (fetchQueue st (Some data)) = snd (deriveView_spec data 1)
        \<and> (\<forall>c. currentCustomer (fetchQueue st (Some data)) = Some c \<longrightarrow>
               entry_id c \<notin> entry_id ` set (queue (fetchQueue st (Some data)))))"
proof (intro conjI impI allI)
  show "currentCustomer (fetchQueue st (Some data)) = fst (deriveView_spec data 1)"
    by (rule fetchQueue_current)
  show "\<forall>q \<in> set (queue (fetchQueue st (Some data))). status q = waiting \<or> status q = checked_in"
    using fetchQueue_remaining_active by blast
  show "queue (fetchQueue st (Some data)) = snd (deriveView_spec data 1) \<longleftrightarrow> \<not> zero_id_clash data"
    by (rule fetchQueue_remaining_iff)
next
  assume d: "distinct (map entry_id data)"
  show eq: "queue (fetchQueue st (Some data)) = snd (deriveView_spec data 1)"
    using fetchQueue_remaining_iff distinct_ids_no_clash [OF d] by blast
  fix c assume c: "currentCustomer (fetchQueue st (Some data)) = Some c"
  have "fst (deriveView_spec data 1) = Some c" using c fetchQueue_current by metis
  then show "entry_id c \<notin> entry_id ` set (queue (fetchQueue st (Some data)))"
    unfolding eq by (auto simp: deriveView_spec_def Let_def)
qed

text \<open>
  Scenario A of the specification (entry 1 in progress at counter 1), and a snapshot whose
  entry in progress has the id 0.
\<close>

theorem fetchQueue_refines_deriveView_witness:
  "map_option entry_id (currentCustomer (fetchQueue empty_page (Some
       [mk_entry 1 in_progress (Some 1) None, mk_entry 2 waiting None None,
        mk_entry 3 checked_in None None]))) = Some 1
   \<and> map entry_id (queue (fetchQueue empty_page (Some
       [mk_entry 1 in_progress (Some 1) None, mk_entry 2 waiting None None,
        mk_entry 3 checked_in None None]))) = [2, 3]
   \<and> map_option entry_id (currentCustomer (fetchQueue empty_page (Some
       [mk_entry 0 in_progress (Some 1) None, mk_entry 2 waiting None None]))) = Some 0
   \<and> map entry_id (queue (fetchQueue empty_page (Some
       [mk_entry 0 in_progress (Some 1) None, mk_entry 2 waiting None None]))) = [2]"
proof -
  have d1: "distinct (map entry_id [mk_entry 1 in_progress (Some 1) None,
              mk_entry 2 waiting None None, mk_entry 3 checked_in None None])"
    by (simp add: mk_entry_def)
  have d2: "distinct (map entry_id [mk_entry 0 in_progress (Some 1) None,
              mk_entry 2 waiting None None])"
    by (simp add: mk_entry_def)
  from fetchQueue_refines_deriveView [of empty_page
         "[mk_entry 1 in_progress (Some 1) None, mk_entry 2 waiting None None,
           mk_entry 3 checked_in None None]"] d1
       fetchQueue_refines_deriveView [of empty_page
         "[mk_entry 0 in_progress (Some 1) None, mk_entry 2 waiting None None]"] d2
  show ?thesis
    by (simp add: deriveView_spec_def mk_entry_def is_mine_def)
qed

text \<open>
  The claim C1 as stated fails for a counter other than 1: with entry 1 in progress at
  counter 2 and entry 2 waiting, the claim for counter 2 gives entry 1 as current and
  entry 2 as remaining, and \<open>fetchQueue\<close> gives entry 2 as current and nothing as
  remaining. It also fails at counter 1 on a snapshot in which the entry in progress and a
  waiting entry share the id 0: the remaining queue then holds the current customer's id.
\<close>

theorem fetchQueue_claim_counterexample:
  "map_option entry_id (currentCustomer (fetchQueue empty_page (Some other_counter_queue))) = Some 2
   \<and> map entry_id (queue (fetchQueue empty_page (Some other_counter_queue))) = []
   \<and> map_option entry_id (fst (deriveView_spec other_counter_queue 2)) = Some 1
   \<and> map entry_id (snd (deriveView_spec other_counter_queue 2)) = [2]
   \<and> map_option entry_id (currentCustomer (fetchQueue empty_page (Some shared_zero_queue))) = Some 0
   \<and> map entry_id (queue (fetchQueue empty_page (Some shared_zero_queue))) = [0]
   \<and> map entry_id (snd (deriveView_spec shared_zero_queue 1)) = []"
  by (simp add: fetchQueue_def deriveView_spec_def mk_entry_def is_mine_def is_active_def
                js_or_num_def empty_page_def other_counter_queue_def shared_zero_queue_def)

lemma action_buttons_unstarted:
  "customer s = Some c \<Longrightarrow> \<not> isStarted c \<Longrightarrow>
   fst ` set (action_buttons s) = {act_start, act_no_show}"
  by (simp add: action_buttons_def)

text \<open>
  Claim C2. A click issues the complete request only for a customer whose start time is
  present, and for a customer whose start time is absent the only requests a click can
  issue are start and no-show.
\<close>

theorem complete_needs_start_time:
  "click_action s a = (s', Some r) \<Longrightarrow>
     action r = a
     \<and> (a = act_complete \<longrightarrow> (\<exists>c t. customer s = Some c \<and> start_time c = Some t \<and> t \<noteq> []))
     \<and> ((\<exists>c. customer s = Some c \<and> start_time c = None) \<longrightarrow> a = act_start \<or> a = act_no_show)"
  by (auto simp: click_action_def action_buttons_def isStarted_def handleAction_def
           split: option.splits if_splits)

theorem complete_needs_start_time_witness:
  "click_action \<lparr>customer = Some (mk_entry 1 in_progress (Some 1) (Some ''2024-01-01T09:00:00'')),
                 session_loading = False\<rparr> act_complete
     = (\<lparr>customer = Some (mk_entry 1 in_progress (Some 1) (Some ''2024-01-01T09:00:00'')),
         session_loading = True\<rparr>,
        Some \<lparr>queue_id = 1, action = act_complete, counter_number = 1, staff_id = 1\<rparr>)
   \<and> click_action \<lparr>customer = Some (mk_entry 2 waiting None None),
                   session_loading = False\<rparr> act_complete
     = (\<lparr>customer = Some (mk_entry 2 waiting None None), session_loading = False\<rparr>, None)"
proof -
  have run: "click_action \<lparr>customer = Some (mk_entry 1 in_progress (Some 1) (Some ''2024-01-01T09:00:00'')),
                 session_loading = False\<rparr> act_complete
     = (\<lparr>customer = Some (mk_entry 1 in_progress (Some 1) (Some ''2024-01-01T09:00:00'')),
         session_loading = True\<rparr>,
        Some \<lparr>queue_id = 1, action = act_complete, counter_number = 1, staff_id = 1\<rparr>)"
    by (simp add: click_action_def action_buttons_def isStarted_def handleAction_def mk_entry_def)
  from complete_needs_start_time [OF run] show ?thesis
    by (simp add: click_action_def action_buttons_def isStarted_def handleAction_def mk_entry_def)
qed

lemma stored_mobile:
  "mobile (setMobile_onChange s raw) = take 10 (filter is_digit raw)"
  by (simp add: setMobile_onChange_def slice0_def strip_non_digits_def)

lemma stored_mobile_step: "step (setMobile_onChange s raw) = step s"
  by (simp add: setMobile_onChange_def)

lemma click_next_gate:
  "step s = 1 \<Longrightarrow> step (click_next s) = (if length (mobile s) = 10 then 2 else 1)"
  by (simp add: click_next_def)

text \<open>
  Claim C3. The stored mobile is the input with every non-digit removed, cut to its
  first 10 characters, so it has at most 10 characters, all digits, and the input
  98765432101 is stored as 9876543210. On step 1 the Next Step button moves to step 2
  exactly when the stored mobile has length 10; otherwise the wizard stays on step 1 and
  sets the validation error. For a freshly typed input this means: exactly when the
  input holds at least 10 digits.
\<close>

theorem mobile_gate:
  "mobile (setMobile_onChange s raw) = take 10 (filter is_digit raw)
   \<and> length (mobile (setMobile_onChange s raw)) \<le> 10
   \<and> (\<forall>c \<in> set (mobile (setMobile_onChange s raw)). is_digit c)
   \<and> mobile (setMobile_onChange s ''98765432101'') = ''9876543210''
   \<and> (step s = 1 \<longrightarrow>
        (step (click_next s) = 2 \<longleftrightarrow> length (mobile s) = 10)
        \<and> (length (mobile s) \<noteq> 10 \<longrightarrow>
             step (click_next s) = 1
             \<and> error (click_next s) = ''Please enter a valid 10-digit mobile number'')
        \<and> (step (click_next (setMobile_onChange s raw)) = 2
             \<longleftrightarrow> 10 \<le> length (filter is_digit raw)))"
proof (intro conjI impI)
  show "mobile (setMobile_onChange s raw) = take 10 (filter is_digit raw)"
    by (rule stored_mobile)
  show "length (mobile (setMobile_onChange s raw)) \<le> 10"
    by (simp add: stored_mobile)
  show "\<forall>c \<in> set (mobile (setMobile_onChange s raw)). is_digit c"
    by (auto simp: stored_mobile dest: in_set_takeD)
  show "mobile (setMobile_onChange s ''98765432101'') = ''9876543210''"
    by (simp add: stored_mobile is_digit_def)
next
  assume s1: "step s = 1"
  show "step (click_next s) = 2 \<longleftrightarrow> length (mobile s) = 10"
    using s1 by (simp add: click_next_def)
  show "step (click_next (setMobile_onChange s raw)) = 2
          \<longleftrightarrow> 10 \<le> length (filter is_digit raw)"
    using s1 by (auto simp: click_next_gate stored_mobile_step stored_mobile)
next
  assume "step s = 1" "length (mobile s) \<noteq> 10"
  then show "step (click_next s) = 1"
    and "error (click_next s) = ''Please enter a valid 10-digit mobile number''"
    by (simp_all add: click_next_def)
qed

text \<open>
  The gate on the input 98765-43210 (accepted) and on 98765 (rejected).
\<close>

theorem mobile_gate_witness:
  "step (initial_wizard ''2026-11-03'') = 1
   \<and> mobile (setMobile_onChange (initial_wizard ''2026-11-03'') ''98765-43210'') = ''9876543210''
   \<and> step (click_next (setMobile_onChange (initial_wizard ''2026-11-03'') ''98765-43210'')) = 2
   \<and> step (click_next (setMobile_onChange (initial_wizard ''2026-11-03'') ''98765'')) = 1
   \<and> error (click_next (setMobile_onChange (initial_wizard ''2026-11-03'') ''98765''))
       = ''Please enter a valid 10-digit mobile number''"
  using mobile_gate [of "initial_wizard ''2026-11-03''" "''98765-43210''"]
        mobile_gate [of "setMobile_onChange (initial_wizard ''2026-11-03'') ''98765''" "''98765''"]
  by (simp add: initial_wizard_def is_digit_def setMobile_onChange_def slice0_def
                strip_non_digits_def)

lemma handleBookSlot_no_slot:
  "selectedTimeSlot s = None \<Longrightarrow>
   handleBookSlot z pre_book s sid =
     (s\<lparr>error := (if mobile s = [] \<or> length (mobile s) < 10
                    then ''Please enter a valid mobile number''
                    else ''Please select a time slot'')\<rparr>, None)"
  by (simp add: handleBookSlot_def truthy_str_def)

text \<open>
  Claim C4. In pre-book mode a click on an unavailable slot changes nothing, and
  \<open>handleBookSlot\<close> called without a selected time slot issues no request and sets a
  validation error (the mobile error or the slot error), leaving \<open>loading\<close> and the
  selection as they were; the confirm button is disabled in that state, and a click on it
  does nothing.
\<close>

theorem unavailable_slot_and_missing_slot_rejected:
  "(\<not> available slot \<longrightarrow> click_slot m s slot = s)
   \<and> (selectedTimeSlot s = None \<longrightarrow>
        snd (handleBookSlot z pre_book s sid) = None
        \<and> error (fst (handleBookSlot z pre_book s sid))
            \<in> {''Please enter a valid mobile number'', ''Please select a time slot''}
        \<and> loading (fst (handleBookSlot z pre_book s sid)) = loading s
        \<and> selectedTimeSlot (fst (handleBookSlot z pre_book s sid)) = None
        \<and> click_confirm z pre_book s = (s, None))"
  by (auto simp: click_slot_def handleBookSlot_no_slot click_confirm_def truthy_str_def)

text \<open>
  A wizard on step 3 with no slot chosen: the unavailable 09:00 slot, the available 09:30 slot, and a submission.
\<close>

theorem unavailable_slot_and_missing_slot_rejected_witness:
  "click_slot pre_book step3_wizard \<lparr>slot_time = ''09:00'', available = False\<rparr> = step3_wizard
   \<and> selectedTimeSlot (click_slot pre_book step3_wizard \<lparr>slot_time = ''09:30'', available = True\<rparr>)
       = Some ''09:30''
   \<and> handleBookSlot (fixed_offset_zone 19800000) pre_book step3_wizard None
       = (step3_wizard\<lparr>error := ''Please select a time slot''\<rparr>, None)"
  using unavailable_slot_and_missing_slot_rejected
          [of "\<lparr>slot_time = ''09:00'', available = False\<rparr>" pre_book step3_wizard
              "fixed_offset_zone 19800000" None]
  by (simp add: step3_wizard_def initial_wizard_def click_slot_def demo_slots_def
                handleBookSlot_def truthy_str_def)

text \<open>
  Claim C9. A lookup response with \<open>success = false\<close> leads to the error state with the
  server's message, or with the default message when the response carries none (an empty
  message counts as none), and calls no completion; the success state is reached exactly
  by a response with \<open>success = true\<close>, after a 10-character mobile was submitted; a
  failed request leads to the error state.
\<close>

theorem negative_lookup_is_error:
  "(\<not> resp_success r \<longrightarrow>
      ci_status (fst (handleMobileSubmit_settled s (Resolved r))) = st_error
      \<and> ci_message (fst (handleMobileSubmit_settled s (Resolved r)))
          = (case resp_message r of
               None \<Rightarrow> Some ''No appointment found''
             | Some msg \<Rightarrow> if msg \<noteq> [] then Some msg else Some ''No appointment found'')
      \<and> snd (handleMobileSubmit_settled s (Resolved r)) = None)
   \<and> (ci_status (fst (handleMobileSubmit_settled s (Resolved r))) = st_success
        \<longleftrightarrow> resp_success r)
   \<and> ci_status (fst (handleMobileSubmit_settled s Rejected)) = st_error
   \<and> (ci_status s \<noteq> st_success \<longrightarrow>
        (ci_status (fst (handleMobileSubmit s mob out)) = st_success
         \<longleftrightarrow> length mob = 10 \<and> (\<exists>r'. out = Resolved r' \<and> resp_success r')))"
  by (cases out)
     (auto simp: handleMobileSubmit_settled_def handleMobileSubmit_def handleMobileSubmit_begin_def
                 js_or_str_def split: option.splits)

text \<open>
  Scenario D of the specification.
\<close>

theorem negative_lookup_is_error_witness:
  "handleMobileSubmit awaiting_input ''9876543210''
     (Resolved \<lparr>resp_success = False, resp_message = Some ''No appointment found'',
                resp_token_number = []\<rparr>)
   = (\<lparr>ci_status = st_error, ci_message = Some ''No appointment found'', ci_details = None\<rparr>,
      None)"
  using negative_lookup_is_error
          [of "\<lparr>resp_success = False, resp_message = Some ''No appointment found'',
                resp_token_number = []\<rparr>"
              "awaiting_input\<lparr>ci_status := st_processing,
                                ci_message := Some ''Verifying appointment...''\<rparr>"
              "''9876543210''"
              "Resolved \<lparr>resp_success = False, resp_message = Some ''No appointment found'',
                         resp_token_number = []\<rparr>"]
  by (simp add: handleMobileSubmit_def handleMobileSubmit_begin_def handleMobileSubmit_settled_def
                awaiting_input_def js_or_str_def)

text \<open>
  What \<open>handleVoiceResult\<close> does in general: without a match the state is unchanged and
  no error is set; on the first match the selection is that entry's id, and a request
  is issued exactly in walk-in mode with a 10-character mobile. For a name with at most
  one underscore, replacing the first underscore replaces them all.
\<close>

lemma replace_first_no_underscore:
  "a \<notin> set nm \<Longrightarrow> replace_first a b nm = nm"
  by (induction nm) auto

lemma replace_all_no_underscore:
  "a \<notin> set nm \<Longrightarrow> replace_all a b nm = nm"
  by (induction nm) (auto simp: replace_all_def)

lemma replace_first_single:
  "count_list nm a \<le> 1 \<Longrightarrow> replace_first a b nm = replace_all a b nm"
proof (induction nm)
  case Nil
  then show ?case by (simp add: replace_all_def)
next
  case (Cons c cs)
  show ?case
  proof (cases "c = a")
    case True
    then have "a \<notin> set cs" using Cons.prems by (auto simp: count_list_0_iff)
    then show ?thesis using True replace_all_no_underscore [of a cs b]
      by (simp add: replace_all_def)
  next
    case False
    then show ?thesis using Cons by (simp add: replace_all_def)
  qed
qed

lemma handleVoiceResult_no_match:
  "find (voice_match (toLowerCase t)) (services s) = None \<Longrightarrow>
   handleVoiceResult z m s t = (s, None)"
  by (simp add: handleVoiceResult_def)

lemma handleVoiceResult_first_match:
  assumes "find (voice_match (toLowerCase t)) (services s) = Some f"
  shows "selectedService (fst (handleVoiceResult z m s t)) = Some (service_id f)"
    and "snd (handleVoiceResult z m s t) \<noteq> None \<longleftrightarrow> m = walk_in \<and> length (mobile s) = 10"
    and "m = pre_book \<or> length (mobile s) \<noteq> 10 \<Longrightarrow> error (fst (handleVoiceResult z m s t)) = error s"
  using assms by (auto simp: handleVoiceResult_def handleBookSlot_def Let_def)

lemma toLowerCase_examples:
  "toLowerCase ''cash deposit please'' = ''cash deposit please''"
  "toLowerCase ''cash deposit'' = ''cash deposit''"
  "toLowerCase ''fixed deposit account'' = ''fixed deposit account''"
  "toLowerCase ''Cash_Deposit'' = ''cash_deposit''"
  "toLowerCase ''Cash Deposit'' = ''cash deposit''"
  "toLowerCase ''Fixed_Deposit_Account'' = ''fixed_deposit_account''"
  "toLowerCase ''Fixed Deposit_Account'' = ''fixed deposit_account''"
  "toLowerCase ''Fixed Deposit Account'' = ''fixed deposit account''"
  by (simp_all add: toLowerCase_def)

lemma voice_match_cash_deposit:
  "voice_match ''cash deposit please''
     \<lparr>service_id = ''Cash_Deposit'', service_name = ''Cash_Deposit'', base_duration_min = 5\<rparr>"
  "voice_match ''cash deposit''
     \<lparr>service_id = ''Cash_Deposit'', service_name = ''Cash_Deposit'', base_duration_min = 5\<rparr>"
  by (simp_all add: voice_match_def str_includes_def toLowerCase_examples sublist_code)

lemma voice_no_match_long_name:
  "\<not> voice_match ''fixed deposit account''
     \<lparr>service_id = ''Fixed_Deposit_Account'', service_name = ''Fixed_Deposit_Account'',
      base_duration_min = 10\<rparr>"
  by (simp add: voice_match_def str_includes_def toLowerCase_examples sublist_code)

text \<open>Scenario C of the specification: the transcript selects \<open>Cash_Deposit\<close> and, in walk-in mode with a 10-digit mobile, submits.\<close>

lemma voice_scenario_C:
  "handleVoiceResult z walk_in step2_wizard ''cash deposit please''
     = (step2_wizard\<lparr>selectedService := Some ''Cash_Deposit'', loading := True\<rparr>,
        Some \<lparr>req_mobile = ''9876543210'', req_name = ''Walk-in Customer'', req_age = Some 30,
              req_is_disabled = False, req_service_type = Some ''Cash_Deposit'',
              req_booking_type = ''walk_in'', req_scheduled_time = None\<rparr>)"
  by (simp add: handleVoiceResult_def step2_wizard_def initial_wizard_def demo_catalog_def
                toLowerCase_examples voice_match_cash_deposit handleBookSlot_def js_or_str_def
                parseInt_def is_space_def is_digit_def digits_value_def digit_val_def)

text \<open>
  Claim C5. The code tests the name with only its first underscore replaced: for the
  catalog entry \<open>Fixed_Deposit_Account\<close> the transcript "fixed deposit account" matches
  nothing and the state is unchanged, although the transcript contains the name with its
  underscores replaced by spaces.
\<close>

theorem voice_replaces_first_underscore_only:
  "handleVoiceResult ist walk_in (step2_wizard\<lparr>services := long_name_catalog\<rparr>)
       ''fixed deposit account''
     = (step2_wizard\<lparr>services := long_name_catalog\<rparr>, None)
   \<and> str_includes (toLowerCase ''fixed deposit account'')
         (toLowerCase (replace_all (CHR ''_'') (CHR '' '') ''Fixed_Deposit_Account''))"
  by (simp add: handleVoiceResult_def step2_wizard_def initial_wizard_def long_name_catalog_def
                toLowerCase_examples voice_no_match_long_name replace_all_def
                str_includes_def)

lemma recognition_onresult_no_match:
  "find (voice_match (toLowerCase t)) (services s) = None \<Longrightarrow>
   recognition_onresult z m s t = (s\<lparr>isListening := False\<rparr>, None)"
  by (simp add: recognition_onresult_def handleVoiceResult_def)

lemma recognition_onresult_match:
  assumes "find (voice_match (toLowerCase t)) (services s) = Some f"
  shows "selectedService (fst (recognition_onresult z m s t)) = Some (service_id f)"
    and "snd (recognition_onresult z m s t) \<noteq> None \<longleftrightarrow> m = walk_in \<and> length (mobile s) = 10"
  using assms
  by (auto simp: recognition_onresult_def handleVoiceResult_def handleBookSlot_def Let_def)

lemma recognition_onresult_step:
  "recognition_onresult z m (s\<lparr>step := k\<rparr>) t
     = (case recognition_onresult z m s t of (s', r) \<Rightarrow> (s'\<lparr>step := k\<rparr>, r))"
  "step (fst (recognition_onresult z m s t)) = step s"
  by (auto simp: recognition_onresult_def handleVoiceResult_def handleBookSlot_def Let_def
           split: option.splits)

lemma recognition_onresult_pre_book:
  "recognition_onresult z pre_book s t
     = (s\<lparr>selectedService := selectedService (fst (recognition_onresult z pre_book s t)),
          isListening := False\<rparr>, None)"
  by (auto simp: recognition_onresult_def handleVoiceResult_def Let_def split: option.splits)

text \<open>
  Claim C6, as the code has it. \<open>handleVoiceResult\<close> has no step guard: a delivered
  result is processed in the same way whatever the step is, and the step is never
  changed. In pre-book mode, the only mode in which the wizard goes past step 2, a
  delivery issues no request and changes nothing but the selected service and the
  listening flag. For an ASCII transcript and catalog: a result that matches a catalog
  entry sets the selected service to the first matching entry's id, also after the
  wizard has left step 2, and issues a request exactly in walk-in mode with a
  10-character mobile; a result that matches no entry changes nothing but the listening
  flag, which every delivery clears.
\<close>

theorem late_voice_result_is_processed:
  "recognition_onresult z m (s\<lparr>step := k\<rparr>) t
     = (case recognition_onresult z m s t of (s', r) \<Rightarrow> (s'\<lparr>step := k\<rparr>, r))
   \<and> step (fst (recognition_onresult z m s t)) = step s
   \<and> (m = pre_book \<longrightarrow>
        recognition_onresult z m s t
          = (s\<lparr>selectedService := selectedService (fst (recognition_onresult z m s t)),
               isListening := False\<rparr>, None))
   \<and> (ascii_voice_input s t \<longrightarrow>
        (\<forall>f. find (voice_match (toLowerCase t)) (services s) = Some f \<longrightarrow>
               selectedService (fst (recognition_onresult z m s t)) = Some (service_id f)
               \<and> (snd (recognition_onresult z m s t) \<noteq> None
                    \<longleftrightarrow> m = walk_in \<and> length (mobile s) = 10))
        \<and> (find (voice_match (toLowerCase t)) (services s) = None \<longrightarrow>
               recognition_onresult z m s t = (s\<lparr>isListening := False\<rparr>, None)))"
  using recognition_onresult_step(1) [where z = z and m = m and s = s and k = k and t = t]
        recognition_onresult_step(2) [where z = z and m = m and s = s and t = t]
        recognition_onresult_pre_book [where z = z and s = s and t = t]
        recognition_onresult_match [where z = z and m = m and s = s and t = t]
        recognition_onresult_no_match [where z = z and m = m and s = s and t = t]
  by blast

lemma demo_find_examples:
  "find (voice_match (toLowerCase ''cash deposit please'')) demo_catalog
     = Some \<lparr>service_id = ''Cash_Deposit'', service_name = ''Cash_Deposit'', base_duration_min = 5\<rparr>"
  "find (voice_match (toLowerCase ''forex please'')) demo_catalog = None"
  by (simp_all add: demo_catalog_def toLowerCase_def voice_match_def str_includes_def sublist_code)

text \<open>
  On step 3 of a pre-book wizard with the service Forex selected: a late result that
  matches Cash_Deposit replaces the selection, and a late result that matches nothing
  only clears the listening flag.
\<close>

theorem late_voice_result_is_processed_witness:
  "step step3_wizard = 3
   \<and> selectedService step3_wizard = Some ''Forex''
   \<and> recognition_onresult ist pre_book step3_wizard ''cash deposit please''
       = (step3_wizard\<lparr>selectedService := Some ''Cash_Deposit''\<rparr>, None)
   \<and> recognition_onresult ist pre_book (step3_wizard\<lparr>isListening := True\<rparr>) ''forex please''
       = (step3_wizard, None)"
proof -
  have a1: "ascii_voice_input step3_wizard ''cash deposit please''"
    and a2: "ascii_voice_input (step3_wizard\<lparr>isListening := True\<rparr>) ''forex please''"
    by (simp_all add: ascii_voice_input_def is_ascii_def step3_wizard_def initial_wizard_def
                      demo_catalog_def)
  have f1: "find (voice_match (toLowerCase ''cash deposit please'')) (services step3_wizard)
              = Some \<lparr>service_id = ''Cash_Deposit'', service_name = ''Cash_Deposit'',
                      base_duration_min = 5\<rparr>"
    and f2: "find (voice_match (toLowerCase ''forex please''))
               (services (step3_wizard\<lparr>isListening := True\<rparr>)) = None"
    by (simp_all add: step3_wizard_def initial_wizard_def demo_find_examples)
  note t1 = late_voice_result_is_processed
              [where z = ist and m = pre_book and s = step3_wizard and k = 3
                 and t = "''cash deposit please''"]
  note t2 = late_voice_result_is_processed
              [where z = ist and m = pre_book and s = "step3_wizard\<lparr>isListening := True\<rparr>"
                 and k = 3 and t = "''forex please''"]
  have m1: "selectedService (fst (recognition_onresult ist pre_book step3_wizard
                                     ''cash deposit please'')) = Some ''Cash_Deposit''"
    using t1 a1 f1 by simp
  have p1: "recognition_onresult ist pre_book step3_wizard ''cash deposit please''
               = (step3_wizard\<lparr>selectedService :=
                                  selectedService (fst (recognition_onresult ist pre_book
                                     step3_wizard ''cash deposit please'')),
                                isListening := False\<rparr>, None)"
    using t1 by blast
  have n2: "recognition_onresult ist pre_book (step3_wizard\<lparr>isListening := True\<rparr>)
              ''forex please''
            = (step3_wizard\<lparr>isListening := True, isListening := False\<rparr>, None)"
    using t2 a2 f2 by blast
  have r1: "recognition_onresult ist pre_book step3_wizard ''cash deposit please''
              = (step3_wizard\<lparr>selectedService := Some ''Cash_Deposit'',
                               isListening := False\<rparr>, None)"
    using p1 unfolding m1 .
  show ?thesis
    unfolding r1 n2 by (simp add: step3_wizard_def initial_wizard_def)
qed

text \<open>
  The claim C6 as stated fails: on step 3 of a pre-book wizard, a voice result that matches
  a catalog entry replaces the selected service.
\<close>

theorem voice_late_result_counterexample:
  "step step3_wizard \<noteq> 2
   \<and> selectedService step3_wizard = Some ''Forex''
   \<and> handleVoiceResult ist pre_book step3_wizard ''cash deposit''
       = (step3_wizard\<lparr>selectedService := Some ''Cash_Deposit''\<rparr>, None)
   \<and> recognition_onresult ist pre_book step3_wizard ''cash deposit''
       = (step3_wizard\<lparr>selectedService := Some ''Cash_Deposit''\<rparr>, None)
   \<and> recognition_onresult ist pre_book step3_wizard ''cash deposit'' \<noteq> (step3_wizard, None)"
  by (simp add: recognition_onresult_def handleVoiceResult_def step3_wizard_def
                initial_wizard_def demo_catalog_def toLowerCase_def voice_match_def
                str_includes_def sublist_code)

text \<open>
  Claim C7. While a request is outstanding (\<open>loading\<close> is true), a voice result in
  walk-in mode with a 10-digit mobile issues a second booking request: the voice path
  does not check \<open>loading\<close>, unlike the buttons.
\<close>

theorem voice_submits_while_loading:
  "loading (step2_wizard\<lparr>loading := True\<rparr>)
   \<and> snd (handleVoiceResult ist walk_in (step2_wizard\<lparr>loading := True\<rparr>) ''cash deposit'')
       = Some \<lparr>req_mobile = ''9876543210'', req_name = ''Walk-in Customer'', req_age = Some 30,
               req_is_disabled = False, req_service_type = Some ''Cash_Deposit'',
               req_booking_type = ''walk_in'', req_scheduled_time = None\<rparr>"
  by (simp add: handleVoiceResult_def step2_wizard_def initial_wizard_def demo_catalog_def
                toLowerCase_examples voice_match_cash_deposit handleBookSlot_def js_or_str_def
                parseInt_def is_space_def is_digit_def digits_value_def digit_val_def)

text \<open>The service buttons and the confirm button issue nothing while \<open>loading\<close> is true.\<close>

lemma buttons_blocked_while_loading:
  "loading s \<Longrightarrow> click_service z m s sv = (s, None)"
  "loading s \<Longrightarrow> click_confirm z m s = (s, None)"
  by (simp_all add: click_service_def click_confirm_def)

subsection \<open>The scheduled time of a pre-booking\<close>

lemma split_loop_no_sep:
  "sep \<notin> set A \<Longrightarrow> split_loop sep cur (A @ rest) = split_loop sep (cur @ A) rest"
  by (induction A arbitrary: cur) auto

lemma js_split_three:
  assumes "sep \<notin> set A" "sep \<notin> set B" "sep \<notin> set C"
  shows "js_split sep (A @ [sep] @ B @ [sep] @ C) = [A, B, C]"
proof -
  have c: "split_loop sep [] C = [C]"
    using split_loop_no_sep [OF assms(3), of "[]" "[]"] by simp
  have b: "split_loop sep [] (B @ [sep] @ C) = [B, C]"
    using split_loop_no_sep [OF assms(2), of "[]" "[sep] @ C"] c by simp
  show ?thesis
    unfolding js_split_def
    using split_loop_no_sep [OF assms(1), of "[]" "[sep] @ B @ [sep] @ C"] b by simp
qed

lemma js_split_two:
  assumes "sep \<notin> set A" "sep \<notin> set B"
  shows "js_split sep (A @ [sep] @ B) = [A, B]"
proof -
  have b: "split_loop sep [] B = [B]"
    using split_loop_no_sep [OF assms(2), of "[]" "[]"] by simp
  show ?thesis
    unfolding js_split_def
    using split_loop_no_sep [OF assms(1), of "[]" "[sep] @ B"] b by simp
qed

lemma is_digit_cases:
  "is_digit c \<longleftrightarrow> c = CHR ''0'' \<or> c = CHR ''1'' \<or> c = CHR ''2'' \<or> c = CHR ''3'' \<or> c = CHR ''4''
     \<or> c = CHR ''5'' \<or> c = CHR ''6'' \<or> c = CHR ''7'' \<or> c = CHR ''8'' \<or> c = CHR ''9''"
  by (auto simp: is_digit_def)

lemma digit_not_special:
  "is_digit c \<Longrightarrow> \<not> is_space c \<and> c \<noteq> CHR ''-'' \<and> c \<noteq> CHR ''+'' \<and> c \<noteq> CHR ''x''
                     \<and> c \<noteq> CHR ''X'' \<and> c \<noteq> CHR '':''"
  by (auto simp: is_digit_cases is_space_def)

lemma digit_val_values:
  "digit_val (CHR ''0'') = 0" "digit_val (CHR ''1'') = 1" "digit_val (CHR ''2'') = 2"
  "digit_val (CHR ''3'') = 3" "digit_val (CHR ''4'') = 4" "digit_val (CHR ''5'') = 5"
  "digit_val (CHR ''6'') = 6" "digit_val (CHR ''7'') = 7" "digit_val (CHR ''8'') = 8"
  "digit_val (CHR ''9'') = 9"
  by (simp_all add: digit_val_def)

lemma digit_char_values:
  "digit_char 0 = CHR ''0''" "digit_char 1 = CHR ''1''" "digit_char 2 = CHR ''2''"
  "digit_char 3 = CHR ''3''" "digit_char 4 = CHR ''4''" "digit_char 5 = CHR ''5''"
  "digit_char 6 = CHR ''6''" "digit_char 7 = CHR ''7''" "digit_char 8 = CHR ''8''"
  "digit_char 9 = CHR ''9''"
  by (simp_all add: digit_char_def)

lemma digit_val_char:
  assumes "is_digit c"
  shows "digit_val c < 10 \<and> digit_char (digit_val c) = c"
  using assms unfolding is_digit_cases
  by (elim disjE) (simp_all only: digit_val_values digit_char_values, simp_all)

lemma digits_take2:
  assumes "\<forall>c \<in> set ds. is_digit c"
  shows "take 2 ds \<noteq> ''0x''" "take 2 ds \<noteq> ''0X''"
proof -
  { assume "take 2 ds = ''0x''"
    then have "CHR ''x'' \<in> set (take 2 ds)" by simp
    then have "CHR ''x'' \<in> set ds" by (rule in_set_takeD)
    with assms have False using digit_not_special by blast }
  then show "take 2 ds \<noteq> ''0x''" by blast
  { assume "take 2 ds = ''0X''"
    then have "CHR ''X'' \<in> set (take 2 ds)" by simp
    then have "CHR ''X'' \<in> set ds" by (rule in_set_takeD)
    with assms have False using digit_not_special by blast }
  then show "take 2 ds \<noteq> ''0X''" by blast
qed

lemma parseInt_digits:
  assumes ne: "ds \<noteq> []" and dg: "\<forall>c \<in> set ds. is_digit c"
  shows "parseInt ds = Some (int (digits_value 10 ds))"
proof -
  obtain c r where ds: "ds = c # r" using ne by (cases ds) auto
  have c: "is_digit c" using dg ds by simp
  have sp: "dropWhile is_space ds = ds" using c digit_not_special ds by simp
  have su: "(case ds of
               c # r \<Rightarrow> if c = CHR ''-'' then (- 1, r)
                        else if c = CHR ''+'' then (1, r) else (1, ds)
             | [] \<Rightarrow> (1::int, ds)) = (1, ds)"
    using digit_not_special [OF c] by (simp add: ds)
  have rv: "(if take 2 ds = ''0x'' \<or> take 2 ds = ''0X'' then (16, drop 2 ds) else (10, ds))
              = (10::nat, ds)"
    using digits_take2 [OF dg] by simp
  have tw: "takeWhile is_digit ds = ds" using dg by (simp add: takeWhile_eq_all_conv)
  have "parseInt ds = (if takeWhile is_digit ds = [] then None
                       else Some (1 * int (digits_value 10 (takeWhile is_digit ds))))"
    by (simp only: parseInt_def Let_def sp su prod.case rv) simp
  then show ?thesis using ne by (simp add: tw)
qed

lemma digits_value_snoc:
  "digits_value 10 (ds @ [c]) = 10 * digits_value 10 ds + digit_val c"
  by (simp add: digits_value_def)

lemma nat_toString_snoc:
  "0 < n \<Longrightarrow> d < 10 \<Longrightarrow> nat_toString (10 * n + d) = nat_toString n @ [digit_char d]"
  by (subst nat_toString.simps) simp

lemma nat_toString_digit: "d < 10 \<Longrightarrow> nat_toString d = [digit_char d]"
  by (subst nat_toString.simps) simp

lemma nat_toString_nonempty: "nat_toString n \<noteq> []"
  by (subst nat_toString.simps) simp

lemma padStart_digits:
  assumes "ds \<noteq> []" "\<forall>c \<in> set ds. is_digit c"
  shows "padStart (length ds) (CHR ''0'') (nat_toString (digits_value 10 ds)) = ds"
  using assms
proof (induction ds rule: rev_induct)
  case Nil
  then show ?case by simp
next
  case (snoc c xs)
  have c: "digit_val c < 10" "digit_char (digit_val c) = c"
    using snoc.prems(2) digit_val_char [of c] by simp_all
  show ?case
  proof (cases "xs = []")
    case True
    then show ?thesis
      using c by (simp add: digits_value_def padStart_def nat_toString_digit)
  next
    case False
    have ih: "padStart (length xs) (CHR ''0'') (nat_toString (digits_value 10 xs)) = xs"
      using snoc.IH False snoc.prems(2) by simp
    show ?thesis
    proof (cases "digits_value 10 xs = 0")
      case z: True
      obtain k where k: "length xs = Suc k" using False by (cases xs) auto
      have "nat_toString 0 = ''0''" by (simp add: nat_toString_digit digit_char_def)
      then have "replicate k (CHR ''0'') @ ''0'' = xs"
        using ih z k by (simp add: padStart_def)
      then have xs: "xs = replicate (Suc k) (CHR ''0'')"
        by (simp add: replicate_append_same)
      have "padStart (length (xs @ [c])) (CHR ''0'') (nat_toString (digits_value 10 (xs @ [c])))
              = replicate (Suc k) (CHR ''0'') @ [c]"
        using z c k by (simp add: digits_value_snoc nat_toString_digit padStart_def)
      then show ?thesis using xs by simp
    next
      case nz: False
      have "nat_toString (digits_value 10 (xs @ [c])) = nat_toString (digits_value 10 xs) @ [c]"
        using nz c by (simp add: digits_value_snoc nat_toString_snoc)
      then show ?thesis
        using ih by (simp add: padStart_def)
    qed
  qed
qed

lemma nat_toString_length_step:
  "10 \<le> n \<Longrightarrow> length (nat_toString n) = Suc (length (nat_toString (n div 10)))"
  by (subst nat_toString.simps) simp

lemma nat_toString_length_4: "1000 \<le> n \<Longrightarrow> 4 \<le> length (nat_toString n)"
proof -
  assume n: "1000 \<le> n"
  have n1: "100 \<le> n div 10" using n by linarith
  have n2: "10 \<le> n div 10 div 10" using n1 by linarith
  have s1: "length (nat_toString n) = Suc (length (nat_toString (n div 10)))"
    using n by (intro nat_toString_length_step) simp
  have s2: "length (nat_toString (n div 10)) = Suc (length (nat_toString (n div 10 div 10)))"
    using n1 by (intro nat_toString_length_step) simp
  have s3: "length (nat_toString (n div 10 div 10))
              = Suc (length (nat_toString (n div 10 div 10 div 10)))"
    using n2 by (intro nat_toString_length_step)
  have "1 \<le> length (nat_toString (n div 10 div 10 div 10))"
    using nat_toString_nonempty [of "n div 10 div 10 div 10"] by (simp add: Suc_le_eq)
  then show ?thesis unfolding s1 s2 s3 by simp
qed

lemma year_toString:
  assumes "length Y = 4" "\<forall>c \<in> set Y. is_digit c" "1000 \<le> digits_value 10 Y"
  shows "nat_toString (digits_value 10 Y) = Y"
proof -
  have "Y \<noteq> []" using assms(1) by auto
  from padStart_digits [OF this assms(2)] nat_toString_length_4 [OF assms(3)] assms(1)
  show ?thesis by (simp add: padStart_def)
qed

lemma pad_two_digits:
  assumes "length M = 2" "\<forall>c \<in> set M. is_digit c"
  shows "pad (Some (int (digits_value 10 M))) = M"
proof -
  have "M \<noteq> []" using assms(1) by auto
  from padStart_digits [OF this assms(2)] assms(1)
  show ?thesis by (simp add: pad_def num_toString_def)
qed

lemma all_digits_facts:
  assumes "all_digits n ds" "0 < n"
  shows "ds \<noteq> []" "\<forall>c \<in> set ds. is_digit c" "CHR ''-'' \<notin> set ds" "CHR '':'' \<notin> set ds"
        "parseInt ds = Some (int (digits_value 10 ds))"
proof -
  show ne: "ds \<noteq> []" using assms by (auto simp: all_digits_def)
  show dg: "\<forall>c \<in> set ds. is_digit c" using assms by (simp add: all_digits_def)
  show "CHR ''-'' \<notin> set ds" "CHR '':'' \<notin> set ds" using dg digit_not_special by blast+
  show "parseInt ds = Some (int (digits_value 10 ds))" by (rule parseInt_digits [OF ne dg])
qed

lemma new_Date_fields:
  assumes y: "100 \<le> y" and mo: "1 \<le> mo" "mo \<le> 12" and d: "1 \<le> d" "d \<le> days_in_month y mo"
    and h: "0 \<le> h" "h \<le> 23" and mi: "0 \<le> mi" "mi \<le> 59"
    and z: "zone_exact z (local_time_value y mo d h mi)"
  shows "getFullYear z (new_Date z (Some y) (Some (mo - 1)) (Some d) (Some h) (Some mi)) = Some y"
    and "getMonth z (new_Date z (Some y) (Some (mo - 1)) (Some d) (Some h) (Some mi)) = Some (mo - 1)"
    and "getDate z (new_Date z (Some y) (Some (mo - 1)) (Some d) (Some h) (Some mi)) = Some d"
    and "getHours z (new_Date z (Some y) (Some (mo - 1)) (Some d) (Some h) (Some mi)) = Some h"
    and "getMinutes z (new_Date z (Some y) (Some (mo - 1)) (Some d) (Some h) (Some mi)) = Some mi"
proof -
  define t where "t = local_time_value y mo d h mi"
  have nd: "new_Date z (Some y) (Some (mo - 1)) (Some d) (Some h) (Some mi)
              = Some (utc_of_local z t)"
    using y z by (simp add: new_Date_def zone_exact_def t_def local_time_value_def Let_def)
  have lt: "local_of_utc z (utc_of_local z t) = t"
    using z by (simp add: zone_exact_def t_def)
  have day: "t div msPerDay = MakeDay y (mo - 1) d"
    unfolding t_def local_time_value_def by (rule time_of_day(1) [OF h mi])
  have hr: "t div msPerHour mod 24 = h"
    unfolding t_def local_time_value_def by (rule time_of_day(2) [OF h mi])
  have mn: "t div msPerMinute mod 60 = mi"
    unfolding t_def local_time_value_def by (rule time_of_day(3) [OF h mi])
  show "getFullYear z (new_Date z (Some y) (Some (mo - 1)) (Some d) (Some h) (Some mi)) = Some y"
    by (simp add: nd getFullYear_def lt day civil_roundtrip(1) [OF mo d])
  show "getMonth z (new_Date z (Some y) (Some (mo - 1)) (Some d) (Some h) (Some mi)) = Some (mo - 1)"
    by (simp add: nd getMonth_def lt day civil_roundtrip(2) [OF mo d])
  show "getDate z (new_Date z (Some y) (Some (mo - 1)) (Some d) (Some h) (Some mi)) = Some d"
    by (simp add: nd getDate_def lt day civil_roundtrip(3) [OF mo d])
  show "getHours z (new_Date z (Some y) (Some (mo - 1)) (Some d) (Some h) (Some mi)) = Some h"
    by (simp add: nd getHours_def lt hr)
  show "getMinutes z (new_Date z (Some y) (Some (mo - 1)) (Some d) (Some h) (Some mi)) = Some mi"
    by (simp add: nd getMinutes_def lt mn)
qed

lemma scheduledTime_valid:
  assumes Y: "all_digits 4 Y" and M: "all_digits 2 M" and D: "all_digits 2 D"
    and H: "all_digits 2 H" and Mi: "all_digits 2 Mi"
    and year: "1000 \<le> digits_value 10 Y"
    and month: "1 \<le> digits_value 10 M" "digits_value 10 M \<le> 12"
    and day: "1 \<le> digits_value 10 D"
             "int (digits_value 10 D) \<le> days_in_month (int (digits_value 10 Y)) (int (digits_value 10 M))"
    and hour: "digits_value 10 H \<le> 23" and minute: "digits_value 10 Mi \<le> 59"
    and zone: "zone_exact z (local_time_value (int (digits_value 10 Y)) (int (digits_value 10 M))
                 (int (digits_value 10 D)) (int (digits_value 10 H)) (int (digits_value 10 Mi)))"
  shows "scheduledTime z (Y @ ''-'' @ M @ ''-'' @ D) (H @ '':'' @ Mi)
           = Y @ ''-'' @ M @ ''-'' @ D @ ''T'' @ H @ '':'' @ Mi @ '':00''"
proof -
  define y mo d h mi where "y = int (digits_value 10 Y)" and "mo = int (digits_value 10 M)"
    and "d = int (digits_value 10 D)" and "h = int (digits_value 10 H)"
    and "mi = int (digits_value 10 Mi)"
  note defs = y_def mo_def d_def h_def mi_def
  have dp: "js_split (CHR ''-'') (Y @ ''-'' @ M @ ''-'' @ D) = [Y, M, D]"
    using all_digits_facts(3) [OF Y] all_digits_facts(3) [OF M] all_digits_facts(3) [OF D]
    by (intro js_split_three) simp_all
  have tp: "js_split (CHR '':'') (H @ '':'' @ Mi) = [H, Mi]"
    using all_digits_facts(4) [OF H] all_digits_facts(4) [OF Mi]
    by (intro js_split_two) simp_all
  have p: "parseInt_at [Y, M, D] 0 = Some y" "parseInt_at [Y, M, D] 1 = Some mo"
          "parseInt_at [Y, M, D] 2 = Some d" "parseInt_at [H, Mi] 0 = Some h"
          "parseInt_at [H, Mi] 1 = Some mi"
    using all_digits_facts(5) [OF Y] all_digits_facts(5) [OF M] all_digits_facts(5) [OF D]
          all_digits_facts(5) [OF H] all_digits_facts(5) [OF Mi]
    by (simp_all add: parseInt_at_def nth_opt_def defs)
  have f: "getFullYear z (new_Date z (Some y) (Some (mo - 1)) (Some d) (Some h) (Some mi)) = Some y"
          "getMonth z (new_Date z (Some y) (Some (mo - 1)) (Some d) (Some h) (Some mi)) = Some (mo - 1)"
          "getDate z (new_Date z (Some y) (Some (mo - 1)) (Some d) (Some h) (Some mi)) = Some d"
          "getHours z (new_Date z (Some y) (Some (mo - 1)) (Some d) (Some h) (Some mi)) = Some h"
          "getMinutes z (new_Date z (Some y) (Some (mo - 1)) (Some d) (Some h) (Some mi)) = Some mi"
    using year month day hour minute zone
    by (intro new_Date_fields; simp add: defs)+
  have ys: "num_toString (Some y) = Y"
    using year_toString [of Y] Y year by (simp add: num_toString_def y_def all_digits_def)
  have ps: "pad (Some mo) = M" "pad (Some d) = D" "pad (Some h) = H" "pad (Some mi) = Mi"
    using pad_two_digits [of M] pad_two_digits [of D] pad_two_digits [of H] pad_two_digits [of Mi]
          M D H Mi
    by (simp_all add: defs all_digits_def)
  show ?thesis
    by (simp add: scheduledTime_def dp [simplified] tp [simplified] p [simplified] f ys ps Let_def)
qed

text \<open>
  Claim C8, as the code has it. For a pre-book submission (the mobile has at least 10
  characters) whose chosen date is \<open>YYYY-MM-DD\<close> with a year of at least 1000, a month
  from 01 to 12 and a day of that month, and whose chosen slot is \<open>HH:mm\<close> with hours up
  to 23 and minutes up to 59, on a host whose zone is exact at that local time, the
  request is issued and its scheduled time is the string \<open>YYYY-MM-DDTHH:mm:00\<close>.
\<close>

theorem scheduled_time_is_local_wall_clock:
  assumes date: "selectedDate s = Y @ ''-'' @ M @ ''-'' @ D"
    and slot: "selectedTimeSlot s = Some (H @ '':'' @ Mi)"
    and mob: "10 \<le> length (mobile s)"
    and Y: "all_digits 4 Y" and M: "all_digits 2 M" and D: "all_digits 2 D"
    and H: "all_digits 2 H" and Mi: "all_digits 2 Mi"
    and year: "1000 \<le> digits_value 10 Y"
    and month: "1 \<le> digits_value 10 M" "digits_value 10 M \<le> 12"
    and day: "1 \<le> digits_value 10 D"
             "int (digits_value 10 D) \<le> days_in_month (int (digits_value 10 Y)) (int (digits_value 10 M))"
    and hour: "digits_value 10 H \<le> 23" and minute: "digits_value 10 Mi \<le> 59"
    and zone: "zone_exact z (local_time_value (int (digits_value 10 Y)) (int (digits_value 10 M))
                 (int (digits_value 10 D)) (int (digits_value 10 H)) (int (digits_value 10 Mi)))"
  shows "\<exists>r. handleBookSlot z pre_book s sid = (s\<lparr>loading := True, error := []\<rparr>, Some r)
             \<and> req_booking_type r = ''pre_booked''
             \<and> req_scheduled_time r
                 = Some (Y @ ''-'' @ M @ ''-'' @ D @ ''T'' @ H @ '':'' @ Mi @ '':00'')"
proof -
  have st: "scheduledTime z (selectedDate s) (the (selectedTimeSlot s))
              = Y @ ''-'' @ M @ ''-'' @ D @ ''T'' @ H @ '':'' @ Mi @ '':00''"
    unfolding date slot option.sel
    by (rule scheduledTime_valid [OF Y M D H Mi year month day hour minute zone])
  have ne: "mobile s \<noteq> []" using mob by auto
  have tr: "truthy_str (selectedTimeSlot s)" by (simp add: slot truthy_str_def)
  show ?thesis
    using mob ne tr st by (simp add: handleBookSlot_def)
qed

lemma zone_exact_fixed_offset:
  "zone_exact (fixed_offset_zone off) t \<longleftrightarrow> \<bar>t - off\<bar> \<le> 8640000000000000"
  by (simp add: zone_exact_def fixed_offset_zone_def)

lemma digits_value_examples:
  "digits_value 10 ''2026'' = 2026" "digits_value 10 ''11'' = 11" "digits_value 10 ''03'' = 3"
  "digits_value 10 ''09'' = 9" "digits_value 10 ''30'' = 30"
  by (simp_all add: digits_value_def digit_val_values)

lemma local_time_value_example: "local_time_value 2026 11 3 9 30 = 1793698200000"
  by (simp add: local_time_value_def MakeDay_def DayFromYear_def DaysInYear_def month_starts_def
                msPerDay_def msPerHour_def msPerMinute_def)

text \<open>
  The 09:30 slot of 3 November 2026 on a host at UTC+05:30.
\<close>

theorem scheduled_time_is_local_wall_clock_witness:
  "\<exists>r. handleBookSlot ist pre_book
          (step3_wizard\<lparr>selectedTimeSlot := Some ''09:30''\<rparr>) None
        = (step3_wizard\<lparr>selectedTimeSlot := Some ''09:30'', loading := True, error := []\<rparr>, Some r)
      \<and> req_booking_type r = ''pre_booked''
      \<and> req_scheduled_time r = Some ''2026-11-03T09:30:00''"
proof -
  have date: "selectedDate (step3_wizard\<lparr>selectedTimeSlot := Some ''09:30''\<rparr>)
                = ''2026'' @ ''-'' @ ''11'' @ ''-'' @ ''03''"
    by (simp add: step3_wizard_def initial_wizard_def)
  have slot: "selectedTimeSlot (step3_wizard\<lparr>selectedTimeSlot := Some ''09:30''\<rparr>)
                = Some (''09'' @ '':'' @ ''30'')"
    by simp
  have mob: "10 \<le> length (mobile (step3_wizard\<lparr>selectedTimeSlot := Some ''09:30''\<rparr>))"
    by (simp add: step3_wizard_def initial_wizard_def)
  have dg: "all_digits 4 ''2026''" "all_digits 2 ''11''" "all_digits 2 ''03''"
           "all_digits 2 ''09''" "all_digits 2 ''30''"
    by (simp_all add: all_digits_def is_digit_def)
  have rng: "1000 \<le> digits_value 10 ''2026''" "1 \<le> digits_value 10 ''11''"
            "digits_value 10 ''11'' \<le> 12" "1 \<le> digits_value 10 ''03''"
            "int (digits_value 10 ''03'')
               \<le> days_in_month (int (digits_value 10 ''2026'')) (int (digits_value 10 ''11''))"
            "digits_value 10 ''09'' \<le> 23" "digits_value 10 ''30'' \<le> 59"
    by (simp_all add: digits_value_examples days_in_month_def)
  have zone: "zone_exact ist (local_time_value (int (digits_value 10 ''2026''))
                (int (digits_value 10 ''11'')) (int (digits_value 10 ''03''))
                (int (digits_value 10 ''09'')) (int (digits_value 10 ''30'')))"
    by (simp add: digits_value_examples ist_def zone_exact_fixed_offset local_time_value_example)
  from scheduled_time_is_local_wall_clock [OF date slot mob dg rng zone, of None]
  show ?thesis by simp
qed

text \<open>Years below 1000 lose their leading zeros, and years 0 to 99 are read as 1900 to 1999.\<close>

lemma scheduledTime_examples:
  "scheduledTime ist ''0999-12-31'' ''16:30'' = ''999-12-31T16:30:00''"
  "scheduledTime ist ''0050-01-01'' ''09:00'' = ''1950-01-01T09:00:00''"
  by code_simp+

text \<open>
  The claim C8 as stated fails for a year below 1000: \<open>getFullYear()\<close> is not padded, so
  the date 0999-12-31 is sent as 999-12-31.
\<close>

theorem scheduled_time_year_counterexample:
  "\<exists>r. snd (handleBookSlot ist pre_book
               (step3_wizard\<lparr>selectedDate := ''0999-12-31'', selectedTimeSlot := Some ''16:30''\<rparr>)
               None) = Some r
      \<and> req_scheduled_time r = Some ''999-12-31T16:30:00''
      \<and> req_scheduled_time r \<noteq> Some ''0999-12-31T16:30:00''"
  by (simp add: handleBookSlot_def step3_wizard_def initial_wizard_def truthy_str_def
                scheduledTime_examples)

text \<open>In a zone with a gap at the chosen local time the date normalises to the time after the gap.\<close>

lemma scheduledTime_gap_example:
  "scheduledTime gap_zone ''2026-11-03'' ''09:30'' = ''2026-11-03T10:30:00''"
  by code_simp

end
